theory Spec2Isabelle
  imports Main
begin

section \<open>Strings\<close>

text \<open>
  Go strings are byte sequences; they are modelled as \<open>string\<close> (a list of 8-bit
  characters), so a non-ASCII letter of the source is the list of its UTF-8 bytes.
\<close>

text \<open>\<open>strings.Split(s, sep)\<close> for a one-byte separator: the pieces between the
  separators, in order; a string without separator is the only piece.\<close>

fun Split :: "string \<Rightarrow> char \<Rightarrow> string list" where
  "Split [] sep = [[]]"
| "Split (c # cs) sep =
     (if c = sep then [] # Split cs sep
      else (case Split cs sep of
              [] \<Rightarrow> [[c]]
            | piece # pieces \<Rightarrow> (c # piece) # pieces))"

text \<open>\<open>strings.HasPrefix(s, prefix)\<close>.\<close>

definition HasPrefix :: "string \<Rightarrow> string \<Rightarrow> bool" where
  "HasPrefix s prefix = (take (length prefix) s = prefix)"

text \<open>\<open>strings.Join(elems, sep)\<close>.\<close>

fun Join :: "string list \<Rightarrow> string \<Rightarrow> string" where
  "Join [] sep = []"
| "Join [e] sep = e"
| "Join (e # es) sep = e @ sep @ Join es sep"

text \<open>\<open>strings.ToLower(s)\<close> on ASCII text: the bytes \<open>A\<close> to \<open>Z\<close> are mapped to
  \<open>a\<close> to \<open>z\<close>, every other byte is kept. (The library function also lowers
  non-ASCII letters; the results below hold for any key function in its place.)\<close>

definition ToLower :: "string \<Rightarrow> string" where
  "ToLower s =
     map (\<lambda>c. if 65 \<le> (of_char c :: nat) \<and> (of_char c :: nat) \<le> 90
              then char_of ((of_char c :: nat) + 32) else c) s"

section \<open>Run-time values seen through reflection\<close>

text \<open>The kinds of \<open>reflect.Kind\<close>, in the order of the library's enumeration
  (\<open>IntK\<close> is \<open>reflect.Int\<close>).\<close>

datatype kind =
    Invalid | Bool | IntK | Int8 | Int16 | Int32 | Int64
  | Uint | Uint8 | Uint16 | Uint32 | Uint64 | Uintptr
  | Float32 | Float64 | Complex64 | Complex128
  | Array | Chan | Func | Interface | Map | Ptr | Slice | String | Struct | UnsafePointer

text \<open>
  A struct tag is read only through \<open>Tag.Get(key)\<close>, which returns the value stored
  under the key and the empty string when the key is absent. The tag is modelled as the
  list of its key/value pairs.
\<close>

type_synonym StructTag = "(string \<times> string) list"

definition Get :: "StructTag \<Rightarrow> string \<Rightarrow> string" where
  "Get tag key = (case map_of tag key of None \<Rightarrow> [] | Some v \<Rightarrow> v)"

record StructField =
  sf_Name :: string
  sf_Tag :: StructTag

text \<open>
  An example value, as far as schema synthesis inspects it: its kind, for a pointer
  whether it is nil and what it points to, for a struct its fields in declaration order.
  \<open>Atom k\<close> is a value of kind \<open>k\<close> with nothing more to inspect: any value of a kind
  other than pointer or struct, the nil pointer for \<open>k = Ptr\<close>, and a struct without
  fields for \<open>k = Struct\<close>. The data held by a value is never read by the synthesis.
\<close>

datatype gvalue =
    Atom kind
  | Pointer gvalue
  | StructValue "(StructField \<times> gvalue) list"

fun Kind :: "gvalue \<Rightarrow> kind" where
  "Kind (Atom k) = k"
| "Kind (Pointer v) = Ptr"
| "Kind (StructValue fs) = Struct"

fun IsNil :: "gvalue \<Rightarrow> bool" where
  "IsNil (Pointer v) = False"
| "IsNil v = True"

fun Elem :: "gvalue \<Rightarrow> gvalue" where
  "Elem (Pointer v) = v"
| "Elem v = v"

fun Fields :: "gvalue \<Rightarrow> (StructField \<times> gvalue) list" where
  "Fields (StructValue fs) = fs"
| "Fields v = []"

section \<open>The document model\<close>

text \<open>
  The document is built from \<open>map[string]interface{}\<close> values. A map is a partial
  function from keys to values; the values that occur are strings, booleans, string
  lists, lists, nested maps and the raw example value.
\<close>

datatype jvalue =
    JString string
  | JBool bool
  | JStrings "string list"
  | JArray "jvalue list"
  | JObject "string \<Rightarrow> jvalue option"
  | JExample gvalue

type_synonym jobject = "string \<Rightarrow> jvalue option"

record Parameter =
  Name :: string
  In :: string
  Type :: string
  Format :: string
  Required :: bool
  ParamDescription :: string
  Schema :: "gvalue option"

text \<open>A route; the handler is never inspected and is left out.\<close>

record Route =
  Method :: string
  Path :: string
  Tags :: "string list"
  Summary :: string
  Description :: string
  Responses :: "int \<Rightarrow> string option"
  Parameters :: "Parameter list"

section \<open>Schema synthesis\<close>

text \<open>
  \<open>getFieldSchema\<close>: the example tag first, then the type by kind. A non-nil pointer
  is followed to the value it points to, with the same field; the second equation is the
  switch for every other value (a nil pointer has kind \<open>Ptr\<close>).
\<close>

fun getFieldSchema :: "gvalue \<Rightarrow> StructField \<Rightarrow> jobject" where
  "getFieldSchema (Pointer v) field = getFieldSchema v field"
| "getFieldSchema fieldValue field =
     (let fieldSchema =
            (if Get (sf_Tag field) ''example'' \<noteq> []
             then [''example'' \<mapsto> JString (Get (sf_Tag field) ''example'')]
             else Map.empty)
      in case Kind fieldValue of
           String \<Rightarrow> fieldSchema(''type'' \<mapsto> JString ''string'')
         | IntK \<Rightarrow> fieldSchema(''type'' \<mapsto> JString ''integer'', ''format'' \<mapsto> JString ''int64'')
         | Int8 \<Rightarrow> fieldSchema(''type'' \<mapsto> JString ''integer'', ''format'' \<mapsto> JString ''int64'')
         | Int16 \<Rightarrow> fieldSchema(''type'' \<mapsto> JString ''integer'', ''format'' \<mapsto> JString ''int64'')
         | Int32 \<Rightarrow> fieldSchema(''type'' \<mapsto> JString ''integer'', ''format'' \<mapsto> JString ''int64'')
         | Int64 \<Rightarrow> fieldSchema(''type'' \<mapsto> JString ''integer'', ''format'' \<mapsto> JString ''int64'')
         | Uint \<Rightarrow> fieldSchema(''type'' \<mapsto> JString ''integer'', ''format'' \<mapsto> JString ''int64'')
         | Uint8 \<Rightarrow> fieldSchema(''type'' \<mapsto> JString ''integer'', ''format'' \<mapsto> JString ''int64'')
         | Uint16 \<Rightarrow> fieldSchema(''type'' \<mapsto> JString ''integer'', ''format'' \<mapsto> JString ''int64'')
         | Uint32 \<Rightarrow> fieldSchema(''type'' \<mapsto> JString ''integer'', ''format'' \<mapsto> JString ''int64'')
         | Uint64 \<Rightarrow> fieldSchema(''type'' \<mapsto> JString ''integer'', ''format'' \<mapsto> JString ''int64'')
         | Float32 \<Rightarrow> fieldSchema(''type'' \<mapsto> JString ''number'', ''format'' \<mapsto> JString ''float'')
         | Float64 \<Rightarrow> fieldSchema(''type'' \<mapsto> JString ''number'', ''format'' \<mapsto> JString ''double'')
         | Bool \<Rightarrow> fieldSchema(''type'' \<mapsto> JString ''boolean'')
         | Slice \<Rightarrow> fieldSchema(''type'' \<mapsto> JString ''array'',
                                 ''items'' \<mapsto> JObject [''type'' \<mapsto> JString ''string''])
         | Array \<Rightarrow> fieldSchema(''type'' \<mapsto> JString ''array'',
                                 ''items'' \<mapsto> JObject [''type'' \<mapsto> JString ''string''])
         | Ptr \<Rightarrow> fieldSchema(''type'' \<mapsto> JString ''string'')
         | _ \<Rightarrow> fieldSchema(''type'' \<mapsto> JString ''string''))"

text \<open>
  The loop over the fields of a struct in \<open>generateSchemaFromStruct\<close>, carrying the
  property map and the required list. \<open>strings.Split\<close> never returns an empty slice,
  so \<open>parts[0]\<close> always exists; the model keeps the declared name in that branch.
\<close>

fun struct_fields :: "(StructField \<times> gvalue) list \<Rightarrow> jobject \<Rightarrow> string list
    \<Rightarrow> jobject \<times> string list" where
  "struct_fields [] properties required = (properties, required)"
| "struct_fields ((field, fieldValue) # rest) properties required =
     (let jsonTag = Get (sf_Tag field) ''json'';
          (fieldName, required') =
            (if jsonTag \<noteq> [] \<and> jsonTag \<noteq> ''-''
             then (case Split jsonTag (CHR '','') of
                     [] \<Rightarrow> (sf_Name field, required)
                   | part0 # parts \<Rightarrow>
                       (let fieldName = (if part0 \<noteq> [] then part0 else sf_Name field);
                            isOptional = (''omitempty'' \<in> set parts)
                        in (fieldName,
                            if \<not> isOptional then required @ [fieldName] else required)))
             else (sf_Name field, required @ [sf_Name field]))
      in struct_fields rest
           (properties(fieldName \<mapsto> JObject (getFieldSchema fieldValue field))) required')"

text \<open>\<open>generateSchemaFromStruct\<close>; \<open>None\<close> is the nil interface value.\<close>

definition generateSchemaFromStruct :: "gvalue option \<Rightarrow> jobject" where
  "generateSchemaFromStruct example =
     (let schema = [''type'' \<mapsto> JString ''object'', ''properties'' \<mapsto> JObject Map.empty]
      in case example of
           None \<Rightarrow> schema
         | Some ex \<Rightarrow>
             (let schema = schema(''example'' \<mapsto> JExample ex);
                  v = (if Kind ex = Ptr \<and> \<not> IsNil ex then Elem ex else ex)
              in if Kind v = Struct
                 then (let (properties, required) = struct_fields (Fields v) Map.empty [];
                           schema = schema(''properties'' \<mapsto> JObject properties)
                       in if length required > 0
                          then schema(''required'' \<mapsto> JStrings required)
                          else schema)
                 else schema))"

text \<open>
  The words of the specification about required fields, to be compared with the loop: a
  field is optional when its \<open>json\<close> tag carries the option \<open>omitempty\<close> after the
  name; the name listed for a field is the name part of the tag, or the declared name
  when the tag is absent, is \<open>-\<close>, or has an empty name part.
\<close>

definition omit_when_empty :: "StructField \<Rightarrow> bool" where
  "omit_when_empty field =
     (''omitempty'' \<in> set (tl (Split (Get (sf_Tag field) ''json'') (CHR '',''))))"

definition schema_name :: "StructField \<Rightarrow> string" where
  "schema_name field =
     (let jsonTag = Get (sf_Tag field) ''json'';
          name = takeWhile (\<lambda>c. c \<noteq> CHR '','') jsonTag
      in if jsonTag = ''-'' \<or> name = [] then sf_Name field else name)"

definition required_fields :: "(StructField \<times> gvalue) list \<Rightarrow> string list" where
  "required_fields fs =
     map schema_name (filter (\<lambda>field. \<not> omit_when_empty field) (map fst fs))"

text \<open>The required list of a schema; the key is absent when the list is empty.\<close>

definition required_list :: "jobject \<Rightarrow> string list" where
  "required_list schema =
     (case schema ''required'' of Some (JStrings names) \<Rightarrow> names | _ \<Rightarrow> [])"

section \<open>Parameter extraction\<close>

text \<open>The parameter built for one \<open>:name\<close> segment (the body of the loop of
  \<open>extractParameters\<close>). The accented letter of the source file is kept as the
  bytes the file holds.\<close>

definition path_parameter :: "string \<Rightarrow> jobject" where
  "path_parameter paramName =
     (let parameter = [''name'' \<mapsto> JString paramName,
                       ''in'' \<mapsto> JString ''path'',
                       ''required'' \<mapsto> JBool True,
                       ''type'' \<mapsto> JString ''string'',
                       ''description'' \<mapsto> JString (''ID del '' @ paramName)]
      in if paramName = ''id''
         then parameter(''description'' \<mapsto> JString ''ID del recurso'',
                        ''type'' \<mapsto> JString ''integer'',
                        ''format'' \<mapsto> JString ''int64'')
         else if paramName = ''userId'' \<or> paramName = ''user_id''
         then parameter(''description'' \<mapsto> JString ''ID del usuario'',
                        ''type'' \<mapsto> JString ''integer'',
                        ''format'' \<mapsto> JString ''int64'')
         else parameter(''description'' \<mapsto>
                JString (''Par'' @ [CHR 0xE0, CHR 0xB8, CHR 0xA3, CHR 0xE0, CHR 0xB8, CHR 0x81]
                         @ ''metro '' @ paramName)))"

fun extract_segments :: "string list \<Rightarrow> jobject list \<Rightarrow> jobject list" where
  "extract_segments [] parameters = parameters"
| "extract_segments (segment # segments) parameters =
     (if HasPrefix segment '':''
      then extract_segments segments (parameters @ [path_parameter (drop 1 segment)])
      else extract_segments segments parameters)"

definition extractParameters :: "string \<Rightarrow> jobject list" where
  "extractParameters path = extract_segments (Split path (CHR ''/'')) []"

section \<open>Document assembly\<close>

text \<open>The document entry of one caller-declared parameter (the body of the first loop
  of \<open>getRouteParameters\<close>).\<close>

definition declared_parameter :: "Parameter \<Rightarrow> jobject" where
  "declared_parameter param =
     (let parameter = [''name'' \<mapsto> JString (Name param),
                       ''in'' \<mapsto> JString (In param),
                       ''required'' \<mapsto> JBool (Required param),
                       ''description'' \<mapsto> JString (ParamDescription param)]
      in if In param = ''body'' \<and> Schema param \<noteq> None
         then parameter(''schema'' \<mapsto> JObject (generateSchemaFromStruct (Schema param)))
         else (let parameter = parameter(''type'' \<mapsto> JString (Type param))
               in if Format param \<noteq> []
                  then parameter(''format'' \<mapsto> JString (Format param))
                  else parameter))"

fun declared_parameters :: "Parameter list \<Rightarrow> jobject list \<Rightarrow> jobject list" where
  "declared_parameters [] parameters = parameters"
| "declared_parameters (param # params) parameters =
     declared_parameters params (parameters @ [declared_parameter param])"

definition getRouteParameters :: "Route \<Rightarrow> jobject list" where
  "getRouteParameters route =
     (let parameters = declared_parameters (Parameters route) []
      in if length (Parameters route) = 0
         then extractParameters (Path route)
         else parameters)"

definition convertToOpenAPIPath :: "string \<Rightarrow> string" where
  "convertToOpenAPIPath path =
     Join (map (\<lambda>segment. if HasPrefix segment '':''
                           then ''{'' @ drop 1 segment @ ''}''
                           else segment)
               (Split path (CHR ''/''))) ''/''"

text \<open>The documentation paths that \<open>getSwaggerJSON\<close> leaves out.\<close>

definition skipped_path :: "string \<Rightarrow> bool" where
  "skipped_path p =
     (p = ''/'' \<or> p = ''/docs'' \<or> p = ''/redoc'' \<or> p = ''/swagger/*any''
      \<or> p = ''/redoc/index.html'' \<or> p = ''/openapi.json'' \<or> p = ''/docs-static/*filepath'')"

text \<open>The operation object that \<open>getSwaggerJSON\<close> builds for a route.\<close>

definition operation_of :: "Route \<Rightarrow> jobject" where
  "operation_of route =
     (let operation =
            [''summary'' \<mapsto> JString (Summary route),
             ''description'' \<mapsto> JString (Description route),
             ''tags'' \<mapsto> JStrings (Tags route),
             ''parameters'' \<mapsto> JArray (map JObject (getRouteParameters route)),
             ''responses'' \<mapsto> JObject
                [''200'' \<mapsto> JObject
                   [''description'' \<mapsto> JString ''Successful response'',
                    ''schema'' \<mapsto> JObject [''type'' \<mapsto> JString ''object'']]]];
          operation = (if Summary route = []
                       then operation(''summary'' \<mapsto> JString ''API endpoint'')
                       else operation);
          operation = (if Description route = []
                       then operation(''description'' \<mapsto> JString ''API endpoint description'')
                       else operation);
          operation = (if length (Tags route) = 0
                       then operation(''tags'' \<mapsto> JStrings [''default''])
                       else operation)
      in operation)"

text \<open>
  The loop of \<open>getSwaggerJSON\<close> that fills \<open>paths\<close>: for every route outside the
  documentation paths, the path item of the converted path (a new one when the path has
  none yet) receives the operation under the lower-cased method. The document is this
  map together with the configuration, serialised by the JSON library.
\<close>

type_synonym pathItem = "string \<Rightarrow> jobject option"

fun swagger_paths :: "Route list \<Rightarrow> (string \<Rightarrow> pathItem option) \<Rightarrow> (string \<Rightarrow> pathItem option)" where
  "swagger_paths [] paths = paths"
| "swagger_paths (route # routes) paths =
     (if skipped_path (Path route) then swagger_paths routes paths
      else (let openAPIPath = convertToOpenAPIPath (Path route);
                pathItem = (case paths openAPIPath of
                              None \<Rightarrow> Map.empty
                            | Some item \<Rightarrow> item);
                operation = operation_of route;
                methodLower = ToLower (Method route)
            in swagger_paths routes
                 (paths(openAPIPath \<mapsto> pathItem(methodLower \<mapsto> operation)))))"

definition getSwaggerJSON_paths :: "Route list \<Rightarrow> (string \<Rightarrow> pathItem option)" where
  "getSwaggerJSON_paths routes = swagger_paths routes Map.empty"

text \<open>The operation stored in a \<open>paths\<close> map under a path and a method, if any.\<close>

definition operation_at :: "(string \<Rightarrow> pathItem option) \<Rightarrow> string \<Rightarrow> string \<Rightarrow> jobject option" where
  "operation_at paths p m = (case paths p of None \<Rightarrow> None | Some item \<Rightarrow> item m)"

text \<open>
  A route writes the entry of path \<open>p\<close> and method \<open>m\<close> when it is not left out and
  its converted path and lower-cased method are \<open>p\<close> and \<open>m\<close>; the last writer of an
  entry is the last such route in registration order.
\<close>

definition writes_entry :: "Route \<Rightarrow> string \<Rightarrow> string \<Rightarrow> bool" where
  "writes_entry route p m =
     (\<not> skipped_path (Path route) \<and> convertToOpenAPIPath (Path route) = p
      \<and> ToLower (Method route) = m)"

definition last_writer :: "Route list \<Rightarrow> string \<Rightarrow> string \<Rightarrow> Route option" where
  "last_writer routes p m = List.find (\<lambda>route. writes_entry route p m) (rev routes)"

section \<open>Validation error formatting\<close>

text \<open>
  A field failure of the external validation engine, read through its accessors
  \<open>Field()\<close>, \<open>Tag()\<close>, \<open>Value()\<close> and \<open>Param()\<close>. The offending value is of any
  type \<open>'v\<close>; \<open>fmt.Sprintf("%v", _)\<close> is a parameter \<open>sprint\<close> of the formatter.
\<close>

record 'v FieldError =
  fe_Field :: string
  fe_Tag :: string
  fe_Value :: 'v
  fe_Param :: string

text \<open>The \<open>error\<close> argument: nil, the engine's collection of field failures, or any
  other error.\<close>

datatype 'v go_error =
    NilError
  | ValidatorErrors "'v FieldError list"
  | OtherError string

record ValidationError =
  Field :: string
  Tag :: string
  Value :: string
  Message :: string

type_synonym ValidationErrors = "ValidationError list"

text \<open>The message chosen by the switch on the tag; accented letters are their UTF-8
  bytes.\<close>

definition validation_message :: "string \<Rightarrow> string \<Rightarrow> string \<Rightarrow> string" where
  "validation_message tag field param =
     (if tag = ''required'' then ''El campo '' @ [CHR 0x27] @ field @ [CHR 0x27] @ '' es requerido''
      else if tag = ''min'' then ''El campo '' @ [CHR 0x27] @ field @ [CHR 0x27]
             @ '' debe tener un valor m'' @ [CHR 0xC3, CHR 0xAD] @ ''nimo de '' @ param
      else if tag = ''max'' then ''El campo '' @ [CHR 0x27] @ field @ [CHR 0x27]
             @ '' debe tener un valor m'' @ [CHR 0xC3, CHR 0xA1] @ ''ximo de '' @ param
      else if tag = ''email'' then ''El campo '' @ [CHR 0x27] @ field @ [CHR 0x27]
             @ '' debe ser un email v'' @ [CHR 0xC3, CHR 0xA1] @ ''lido''
      else if tag = ''url'' then ''El campo '' @ [CHR 0x27] @ field @ [CHR 0x27]
             @ '' debe ser una URL v'' @ [CHR 0xC3, CHR 0xA1] @ ''lida''
      else if tag = ''len'' then ''El campo '' @ [CHR 0x27] @ field @ [CHR 0x27]
             @ '' debe tener exactamente '' @ param @ '' caracteres''
      else if tag = ''gte'' then ''El campo '' @ [CHR 0x27] @ field @ [CHR 0x27]
             @ '' debe ser mayor o igual a '' @ param
      else if tag = ''lte'' then ''El campo '' @ [CHR 0x27] @ field @ [CHR 0x27]
             @ '' debe ser menor o igual a '' @ param
      else ''El campo '' @ [CHR 0x27] @ field @ [CHR 0x27] @ '' no cumple con la validaci''
             @ [CHR 0xC3, CHR 0xB3] @ ''n '' @ [CHR 0x27] @ tag @ [CHR 0x27])"

definition format_field_error :: "('v \<Rightarrow> string) \<Rightarrow> 'v FieldError \<Rightarrow> ValidationError" where
  "format_field_error sprint fieldError =
     (let validationError = \<lparr>Field = fe_Field fieldError,
                              Tag = fe_Tag fieldError,
                              Value = sprint (fe_Value fieldError),
                              Message = []\<rparr>
      in validationError\<lparr>Message :=
           validation_message (fe_Tag fieldError) (fe_Field fieldError) (fe_Param fieldError)\<rparr>)"

fun format_loop :: "('v \<Rightarrow> string) \<Rightarrow> 'v FieldError list \<Rightarrow> ValidationErrors \<Rightarrow> ValidationErrors" where
  "format_loop sprint [] validationErrors = validationErrors"
| "format_loop sprint (fieldError # rest) validationErrors =
     format_loop sprint rest (validationErrors @ [format_field_error sprint fieldError])"

definition FormatValidationErrors :: "('v \<Rightarrow> string) \<Rightarrow> 'v go_error \<Rightarrow> ValidationErrors" where
  "FormatValidationErrors sprint err =
     (case err of
        ValidatorErrors validatorErrors \<Rightarrow> format_loop sprint validatorErrors []
      | _ \<Rightarrow> [])"


section \<open>The dependency container\<close>

text \<open>
  A \<open>reflect.Type\<close>, as far as the container inspects it: whether its kind is pointer,
  its element type, and its name. \<open>Named n\<close> is a type that is not a pointer,
  \<open>PtrTo t\<close> is \<open>*t\<close>, and \<open>DefinedPtr n t\<close> is a defined type \<open>n\<close> whose
  underlying type is \<open>*t\<close>.
\<close>

datatype rtype =
    Named string
  | PtrTo rtype
  | DefinedPtr string rtype

fun is_pointer :: "rtype \<Rightarrow> bool" where
  "is_pointer (Named n) = False"
| "is_pointer (PtrTo t) = True"
| "is_pointer (DefinedPtr n t) = True"

fun type_Elem :: "rtype \<Rightarrow> rtype" where
  "type_Elem (PtrTo t) = t"
| "type_Elem (DefinedPtr n t) = t"
| "type_Elem (Named n) = Named n"

fun type_String :: "rtype \<Rightarrow> string" where
  "type_String (Named n) = n"
| "type_String (PtrTo t) = ''*'' @ type_String t"
| "type_String (DefinedPtr n t) = n"

text \<open>
  An \<open>interface{}\<close> value: nil, or a dynamic type with the value it holds. The value
  is an address or identity; \<open>None\<close> under a pointer type is the nil pointer of that
  type, as in the registration witness \<open>(*T)(nil)\<close>.
\<close>

datatype iface =
    NilValue
  | Dyn rtype "nat option"

text \<open>Errors: \<open>fmt.Errorf\<close> with a plain message, or with \<open>%w\<close> wrapping another
  error behind a prefix.\<close>

datatype err =
    ErrorString string
  | WrapError string err


text \<open>
  A user-supplied provider \<open>func(c *gin.Context) (interface{}, error)\<close>. It may
  allocate or fail differently from call to call, so besides the context it receives the
  number of user-provider invocations the container has made before this one.
\<close>

type_synonym 'c DependencyProvider = "'c \<Rightarrow> nat \<Rightarrow> iface \<times> err option"

text \<open>What the \<open>providers\<close> map holds: the provider given to \<open>Register\<close>, or the
  closure built by \<open>RegisterSingleton\<close>, which captures the type key and the provider.\<close>

datatype 'c provider =
    Plain "'c DependencyProvider"
  | Memoizing rtype "'c DependencyProvider"

text \<open>
  \<open>sync.RWMutex\<close>: the number of read locks held and whether the write lock is held.
  Acquiring returns \<open>None\<close> when the caller has to wait. (A reader also waits while a
  writer is waiting; that only removes schedules.)
\<close>

record rwmutex =
  readers :: nat
  writer :: bool

definition RLock :: "rwmutex \<Rightarrow> rwmutex option" where
  "RLock m = (if writer m then None else Some (m\<lparr>readers := readers m + 1\<rparr>))"

definition RUnlock :: "rwmutex \<Rightarrow> rwmutex" where
  "RUnlock m = m\<lparr>readers := readers m - 1\<rparr>"

definition Lock :: "rwmutex \<Rightarrow> rwmutex option" where
  "Lock m = (if writer m \<or> readers m > 0 then None else Some (m\<lparr>writer := True\<rparr>))"

definition Unlock :: "rwmutex \<Rightarrow> rwmutex" where
  "Unlock m = m\<lparr>writer := False\<rparr>"

text \<open>
  The container: the two maps and the mutex of the source. \<open>invocations\<close> is not a
  field of the source; it counts the invocations of user-supplied providers made so
  far, so that results can speak of how often a provider was invoked.
\<close>

record 'c DependencyContainer =
  providers :: "rtype \<Rightarrow> 'c provider option"
  instances :: "rtype \<Rightarrow> iface option"
  mutex :: rwmutex
  invocations :: nat

definition NewDependencyContainer :: "'c DependencyContainer" where
  "NewDependencyContainer =
     \<lparr>providers = Map.empty, instances = Map.empty,
      mutex = \<lparr>readers = 0, writer = False\<rparr>, invocations = 0\<rparr>"

text \<open>
  The outcome of one call run by a goroutine on its own: it returns a value and leaves a
  container state, it panics (deferred unlocks have run), or it waits for a lock that
  nothing it does will release.
\<close>

datatype ('a, 'c) outcome =
    Returns 'a "'c DependencyContainer"
  | Panics "'c DependencyContainer"
  | Blocks


definition RegisterSingleton :: "'c DependencyContainer \<Rightarrow> 'c DependencyProvider \<Rightarrow> iface
    \<Rightarrow> (unit, 'c) outcome" where
  "RegisterSingleton dc provider target =
     (case Lock (mutex dc) of
        None \<Rightarrow> Blocks
      | Some m \<Rightarrow>
          (case target of
             NilValue \<Rightarrow> Panics (dc\<lparr>mutex := Unlock m\<rparr>)
           | Dyn t r \<Rightarrow>
               (let targetType = (if is_pointer t then type_Elem t else t)
                in Returns () (dc\<lparr>providers :=
                                     (providers dc)(targetType \<mapsto> Memoizing targetType provider),
                                   mutex := Unlock m\<rparr>))))"

text \<open>The key under which a witness of type \<open>t\<close> is registered: pointer types are
  replaced by their element type, once.\<close>

definition type_key :: "rtype \<Rightarrow> rtype" where
  "type_key t = (if is_pointer t then type_Elem t else t)"

text \<open>
  The closure stored by \<open>RegisterSingleton\<close>, on the mutex of the container: read
  lock and first check, read unlock, write lock, second check, the provider, the store.
\<close>

definition singleton_provider :: "rtype \<Rightarrow> 'c DependencyProvider \<Rightarrow> 'c
    \<Rightarrow> 'c DependencyContainer \<Rightarrow> (iface \<times> err option, 'c) outcome" where
  "singleton_provider targetType provider c dc =
     (case RLock (mutex dc) of
        None \<Rightarrow> Blocks
      | Some m1 \<Rightarrow>
          (case instances dc targetType of
             Some instance \<Rightarrow> Returns (instance, None) (dc\<lparr>mutex := RUnlock m1\<rparr>)
           | None \<Rightarrow>
               (case Lock (RUnlock m1) of
                  None \<Rightarrow> Blocks
                | Some m2 \<Rightarrow>
                    (case instances dc targetType of
                       Some instance \<Rightarrow> Returns (instance, None) (dc\<lparr>mutex := Unlock m2\<rparr>)
                     | None \<Rightarrow>
                         (let (instance, err) = provider c (invocations dc);
                              dc = dc\<lparr>invocations := invocations dc + 1\<rparr>
                          in case err of
                               Some e \<Rightarrow> Returns (NilValue, Some e) (dc\<lparr>mutex := Unlock m2\<rparr>)
                             | None \<Rightarrow>
                                 Returns (instance, None)
                                   (dc\<lparr>instances := (instances dc)(targetType \<mapsto> instance),
                                       mutex := Unlock m2\<rparr>))))))"

fun call_provider :: "'c provider \<Rightarrow> 'c \<Rightarrow> 'c DependencyContainer
    \<Rightarrow> (iface \<times> err option, 'c) outcome" where
  "call_provider (Plain provider) c dc =
     Returns (provider c (invocations dc)) (dc\<lparr>invocations := invocations dc + 1\<rparr>)"
| "call_provider (Memoizing targetType provider) c dc =
     singleton_provider targetType provider c dc"

text \<open>
  \<open>Resolve\<close>. The read lock is taken first and released by the deferred unlock when
  the function returns or panics. \<open>Inl\<close> is the error returned; \<open>Inr instance\<close> is a
  nil error with \<open>instance\<close> stored in the location \<open>target\<close> points to. The final
  \<open>Set\<close> panics for a nil target pointer, a nil instance, or an instance whose type is
  not assignable to the element type (\<open>assignable\<close> is reflection's relation).
\<close>

definition Resolve :: "(rtype \<Rightarrow> rtype \<Rightarrow> bool) \<Rightarrow> 'c DependencyContainer \<Rightarrow> 'c \<Rightarrow> iface
    \<Rightarrow> (err + iface, 'c) outcome" where
  "Resolve assignable dc c target =
     (case RLock (mutex dc) of
        None \<Rightarrow> Blocks
      | Some m \<Rightarrow>
          (let dc = dc\<lparr>mutex := m\<rparr>
           in case target of
                NilValue \<Rightarrow> Panics (dc\<lparr>mutex := RUnlock (mutex dc)\<rparr>)
              | Dyn targetType r \<Rightarrow>
                  if \<not> is_pointer targetType
                  then Returns (Inl (ErrorString ''target must be a pointer''))
                         (dc\<lparr>mutex := RUnlock (mutex dc)\<rparr>)
                  else (let elementType = type_Elem targetType
                        in case providers dc elementType of
                             None \<Rightarrow>
                               Returns (Inl (ErrorString (''no provider registered for type ''
                                                          @ type_String elementType)))
                                 (dc\<lparr>mutex := RUnlock (mutex dc)\<rparr>)
                           | Some provider \<Rightarrow>
                               (case call_provider provider c dc of
                                  Blocks \<Rightarrow> Blocks
                                | Panics dc \<Rightarrow> Panics (dc\<lparr>mutex := RUnlock (mutex dc)\<rparr>)
                                | Returns (instance, err) dc \<Rightarrow>
                                    (case err of
                                       Some e \<Rightarrow>
                                         Returns (Inl (WrapError ''error resolving dependency: '' e))
                                           (dc\<lparr>mutex := RUnlock (mutex dc)\<rparr>)
                                     | None \<Rightarrow>
                                         (case instance of
                                            NilValue \<Rightarrow> Panics (dc\<lparr>mutex := RUnlock (mutex dc)\<rparr>)
                                          | Dyn instanceType v \<Rightarrow>
                                              if r = None \<or> \<not> assignable instanceType elementType
                                              then Panics (dc\<lparr>mutex := RUnlock (mutex dc)\<rparr>)
                                              else Returns (Inr instance)
                                                     (dc\<lparr>mutex := RUnlock (mutex dc)\<rparr>)))))))"

section \<open>Concurrent calls of the memoizing closure\<close>

text \<open>
  Several goroutines call the closure stored by \<open>RegisterSingleton\<close> for one type key
  at the same time, each with its own context. A goroutine is at one of the following
  points of the closure; between two points it performs one operation on the mutex, the
  instance map or the provider:
  \<^item> \<open>Start\<close>: before \<open>RLock\<close>;
  \<^item> \<open>ReadLocked\<close>: holding the read lock, before the first check;
  \<^item> \<open>Hit instance\<close>: the first check found \<open>instance\<close>, before \<open>RUnlock\<close> and return;
  \<^item> \<open>Miss\<close>: the first check found nothing, before \<open>RUnlock\<close>;
  \<^item> \<open>WantWrite\<close>: before \<open>Lock\<close>;
  \<^item> \<open>WriteLocked\<close>: holding the write lock, before the second check;
  \<^item> \<open>HitW instance\<close>: the second check found \<open>instance\<close>, before the deferred
    \<open>Unlock\<close> and return;
  \<^item> \<open>MissW\<close>: the second check found nothing, before the call of the provider;
  \<^item> \<open>Called result\<close>: the provider has returned \<open>result\<close>;
  \<^item> \<open>Stored instance\<close>: the instance is stored, before the deferred \<open>Unlock\<close>;
  \<^item> \<open>Done result\<close>: the closure has returned \<open>result\<close>.
\<close>

datatype cpc =
    Start
  | ReadLocked
  | Hit iface
  | Miss
  | WantWrite
  | WriteLocked
  | HitW iface
  | MissW
  | Called "iface \<times> err option"
  | Stored iface
  | Done "iface \<times> err option"

text \<open>One operation of a goroutine at a point of the closure, on the shared container;
  \<open>None\<close> when the goroutine has to wait for the lock, or has returned.\<close>

fun closure_step :: "rtype \<Rightarrow> 'c DependencyProvider \<Rightarrow> 'c \<Rightarrow> cpc \<Rightarrow> 'c DependencyContainer
    \<Rightarrow> (cpc \<times> 'c DependencyContainer) option" where
  "closure_step targetType provider c Start dc =
     (case RLock (mutex dc) of
        None \<Rightarrow> None
      | Some m \<Rightarrow> Some (ReadLocked, dc\<lparr>mutex := m\<rparr>))"
| "closure_step targetType provider c ReadLocked dc =
     (case instances dc targetType of
        Some instance \<Rightarrow> Some (Hit instance, dc)
      | None \<Rightarrow> Some (Miss, dc))"
| "closure_step targetType provider c (Hit instance) dc =
     Some (Done (instance, None), dc\<lparr>mutex := RUnlock (mutex dc)\<rparr>)"
| "closure_step targetType provider c Miss dc =
     Some (WantWrite, dc\<lparr>mutex := RUnlock (mutex dc)\<rparr>)"
| "closure_step targetType provider c WantWrite dc =
     (case Lock (mutex dc) of
        None \<Rightarrow> None
      | Some m \<Rightarrow> Some (WriteLocked, dc\<lparr>mutex := m\<rparr>))"
| "closure_step targetType provider c WriteLocked dc =
     (case instances dc targetType of
        Some instance \<Rightarrow> Some (HitW instance, dc)
      | None \<Rightarrow> Some (MissW, dc))"
| "closure_step targetType provider c (HitW instance) dc =
     Some (Done (instance, None), dc\<lparr>mutex := Unlock (mutex dc)\<rparr>)"
| "closure_step targetType provider c MissW dc =
     Some (Called (provider c (invocations dc)), dc\<lparr>invocations := invocations dc + 1\<rparr>)"
| "closure_step targetType provider c (Called (instance, err)) dc =
     (case err of
        Some e \<Rightarrow> Some (Done (NilValue, Some e), dc\<lparr>mutex := Unlock (mutex dc)\<rparr>)
      | None \<Rightarrow> Some (Stored instance,
                       dc\<lparr>instances := (instances dc)(targetType \<mapsto> instance)\<rparr>))"
| "closure_step targetType provider c (Stored instance) dc =
     Some (Done (instance, None), dc\<lparr>mutex := Unlock (mutex dc)\<rparr>)"
| "closure_step targetType provider c (Done result) dc = None"

text \<open>The container and the points the goroutines are at; goroutine \<open>t\<close> calls with
  the context \<open>cs ! t\<close>.\<close>

record 'c system =
  shared :: "'c DependencyContainer"
  goroutines :: "cpc list"

definition step :: "rtype \<Rightarrow> 'c DependencyProvider \<Rightarrow> 'c list \<Rightarrow> nat \<Rightarrow> 'c system
    \<Rightarrow> 'c system option" where
  "step targetType provider cs t s =
     (if t < length (goroutines s) \<and> t < length cs
      then (case closure_step targetType provider (cs ! t) (goroutines s ! t) (shared s) of
              None \<Rightarrow> None
            | Some (pc, dc) \<Rightarrow> Some \<lparr>shared = dc, goroutines = (goroutines s)[t := pc]\<rparr>)
      else None)"

text \<open>An execution follows a schedule, the list of the goroutines that are given the
  next operation; a scheduled goroutine that has to wait, or has returned, leaves the
  state as it is. All goroutines start at the entry of the closure.\<close>

fun run :: "rtype \<Rightarrow> 'c DependencyProvider \<Rightarrow> 'c list \<Rightarrow> nat list \<Rightarrow> 'c system \<Rightarrow> 'c system" where
  "run targetType provider cs [] s = s"
| "run targetType provider cs (t # schedule) s =
     (case step targetType provider cs t s of
        None \<Rightarrow> run targetType provider cs schedule s
      | Some s' \<Rightarrow> run targetType provider cs schedule s')"

definition concurrent_calls :: "'c DependencyContainer \<Rightarrow> 'c list \<Rightarrow> 'c system" where
  "concurrent_calls dc cs = \<lparr>shared = dc, goroutines = replicate (length cs) Start\<rparr>"

text \<open>
  What the proofs below maintain. The read and write locks a goroutine holds at a point:
\<close>

fun reads_held :: "cpc \<Rightarrow> nat" where
  "reads_held ReadLocked = 1"
| "reads_held (Hit i) = 1"
| "reads_held Miss = 1"
| "reads_held pc = 0"

fun writes_held :: "cpc \<Rightarrow> nat" where
  "writes_held WriteLocked = 1"
| "writes_held (HitW i) = 1"
| "writes_held MissW = 1"
| "writes_held (Called r) = 1"
| "writes_held (Stored i) = 1"
| "writes_held pc = 0"

text \<open>What a point says about the container, when the first invocation of the provider
  (invocation number \<open>n0\<close>) succeeds: a found, stored or returned instance is the stored
  one; the provider is called only while nothing is stored.\<close>

fun pc_ok :: "rtype \<Rightarrow> nat \<Rightarrow> 'c DependencyContainer \<Rightarrow> cpc \<Rightarrow> bool" where
  "pc_ok T n0 dc (Hit i) = (instances dc T = Some i)"
| "pc_ok T n0 dc (HitW i) = (instances dc T = Some i)"
| "pc_ok T n0 dc (Stored i) = (instances dc T = Some i)"
| "pc_ok T n0 dc (Done r) = (snd r = None \<and> instances dc T = Some (fst r))"
| "pc_ok T n0 dc (Called r) = (snd r = None \<and> instances dc T = None \<and> invocations dc = n0 + 1)"
| "pc_ok T n0 dc MissW = (instances dc T = None \<and> invocations dc = n0)"
| "pc_ok T n0 dc pc = True"

text \<open>The two invariants of an execution: the mutex records the locks that the
  goroutines hold, with at most one writer; and the points of all goroutines agree with
  the container, which has seen the first invocation at most.\<close>

fun is_Called :: "cpc \<Rightarrow> bool" where
  "is_Called (Called r) = True"
| "is_Called pc = False"

definition lock_inv :: "'c system \<Rightarrow> bool" where
  "lock_inv s =
     (readers (mutex (shared s)) = sum_list (map reads_held (goroutines s))
      \<and> sum_list (map writes_held (goroutines s)) \<le> 1
      \<and> writer (mutex (shared s)) = (sum_list (map writes_held (goroutines s)) = 1))"

definition memo_inv :: "rtype \<Rightarrow> nat \<Rightarrow> 'c system \<Rightarrow> bool" where
  "memo_inv T n0 s =
     ((\<forall>t < length (goroutines s). pc_ok T n0 (shared s) (goroutines s ! t))
      \<and> (instances (shared s) T = None \<longrightarrow>
            invocations (shared s) = n0 \<or> (\<exists>t < length (goroutines s). is_Called (goroutines s ! t)))
      \<and> (instances (shared s) T \<noteq> None \<longrightarrow> invocations (shared s) = n0 + 1))"

fun is_Done :: "cpc \<Rightarrow> bool" where
  "is_Done (Done r) = True"
| "is_Done pc = False"

text \<open>The number of operations a goroutine has left at most.\<close>

fun steps_left :: "cpc \<Rightarrow> nat" where
  "steps_left Start = 8"
| "steps_left ReadLocked = 7"
| "steps_left Miss = 6"
| "steps_left WantWrite = 5"
| "steps_left WriteLocked = 4"
| "steps_left MissW = 3"
| "steps_left (Called r) = 2"
| "steps_left (Stored i) = 1"
| "steps_left (Hit i) = 1"
| "steps_left (HitW i) = 1"
| "steps_left (Done r) = 0"

text \<open>What is maintained while \<open>k\<close> read locks are held by others and never
  released: every goroutine stays before the write lock.\<close>

fun before_write :: "cpc \<Rightarrow> bool" where
  "before_write Start = True"
| "before_write ReadLocked = True"
| "before_write Miss = True"
| "before_write WantWrite = True"
| "before_write pc = False"

definition stuck_inv :: "nat \<Rightarrow> rtype \<Rightarrow> nat \<Rightarrow> 'c system \<Rightarrow> bool" where
  "stuck_inv k T n0 s =
     (readers (mutex (shared s)) = k + sum_list (map reads_held (goroutines s))
      \<and> \<not> writer (mutex (shared s))
      \<and> instances (shared s) T = None
      \<and> invocations (shared s) = n0
      \<and> (\<forall>t < length (goroutines s). before_write (goroutines s ! t)))"

section \<open>Auxiliary facts\<close>

lemma Split_Cons: "\<exists>rest. Split s sep = takeWhile (\<lambda>c. c \<noteq> sep) s # rest"
  by (induction s) auto

lemma find_append:
  "List.find P (xs @ ys) = (case List.find P xs of Some x \<Rightarrow> Some x | None \<Rightarrow> List.find P ys)"
  by (induction xs) simp_all

lemma ToLower_GET: "ToLower ''GET'' = ''get''"
  by code_simp

lemma convertToOpenAPIPath_a: "convertToOpenAPIPath ''/a'' = ''/a''"
  by (simp add: convertToOpenAPIPath_def HasPrefix_def)

lemma convertToOpenAPIPath_items_id: "convertToOpenAPIPath ''/items/:id'' = ''/items/{id}''"
  by (simp add: convertToOpenAPIPath_def HasPrefix_def)

subsection \<open>Schema synthesis\<close>

lemma struct_fields_required:
  "snd (struct_fields fs properties required) = required @ required_fields fs"
proof (induction fs arbitrary: properties required)
  case Nil
  show ?case by (simp add: required_fields_def)
next
  case (Cons a fs)
  obtain field fieldValue where a: "a = (field, fieldValue)" by (cases a)
  obtain rest where sp: "Split (Get (sf_Tag field) ''json'') (CHR '','') =
      takeWhile (\<lambda>c. c \<noteq> CHR '','') (Get (sf_Tag field) ''json'') # rest"
    using Split_Cons by blast
  have tk: "Get (sf_Tag field) ''json'' = [] \<Longrightarrow> rest = []"
    using sp by simp
  show ?case
    using sp tk
    by (auto simp add: a Cons.IH Let_def required_fields_def omit_when_empty_def schema_name_def
        split: prod.splits)
qed

subsection \<open>Parameters and document assembly\<close>

lemma extract_segments_append:
  "extract_segments segments parameters =
     parameters @ map (\<lambda>segment. path_parameter (drop 1 segment))
                      (filter (\<lambda>segment. HasPrefix segment '':'') segments)"
  by (induction segments arbitrary: parameters) simp_all

lemma path_parameter_fields:
  "path_parameter n ''name'' = Some (JString n)"
  "path_parameter n ''in'' = Some (JString ''path'')"
  "path_parameter n ''required'' = Some (JBool True)"
  "path_parameter n ''type'' =
     Some (JString (if n = ''id'' \<or> n = ''userId'' \<or> n = ''user_id''
                    then ''integer'' else ''string''))"
  "path_parameter n ''format'' =
     (if n = ''id'' \<or> n = ''userId'' \<or> n = ''user_id'' then Some (JString ''int64'') else None)"
  by (simp_all add: path_parameter_def Let_def)

lemma declared_parameter_fields:
  "declared_parameter param ''name'' = Some (JString (Name param))"
  "declared_parameter param ''in'' = Some (JString (In param))"
  "declared_parameter param ''required'' = Some (JBool (Required param))"
  "declared_parameter param ''description'' = Some (JString (ParamDescription param))"
  "declared_parameter param ''schema'' =
     (if In param = ''body'' \<and> Schema param \<noteq> None
      then Some (JObject (generateSchemaFromStruct (Schema param))) else None)"
  "declared_parameter param ''type'' =
     (if In param = ''body'' \<and> Schema param \<noteq> None then None
      else Some (JString (Type param)))"
  "declared_parameter param ''format'' =
     (if (In param = ''body'' \<and> Schema param \<noteq> None) \<or> Format param = [] then None
      else Some (JString (Format param)))"
  by (simp_all add: declared_parameter_def Let_def)

lemma declared_parameter_dom:
  "dom (declared_parameter param) \<subseteq>
     {''name'', ''in'', ''required'', ''description'', ''schema'', ''type'', ''format''}"
  by (auto simp add: declared_parameter_def Let_def split: if_splits)

lemma declared_parameters_append:
  "declared_parameters params acc = acc @ map declared_parameter params"
  by (induction params arbitrary: acc) simp_all

lemma getRouteParameters_eq:
  "getRouteParameters route =
     (if Parameters route = [] then extractParameters (Path route)
      else map declared_parameter (Parameters route))"
  by (simp add: getRouteParameters_def declared_parameters_append)

lemma operation_of_parameters:
  "operation_of route ''parameters'' = Some (JArray (map JObject (getRouteParameters route)))"
  by (simp add: operation_of_def Let_def)

lemma operation_of_summary:
  "operation_of route ''summary'' =
     Some (JString (if Summary route = [] then ''API endpoint'' else Summary route))"
  by (simp add: operation_of_def Let_def)

lemma last_writer_Cons:
  "last_writer (route # routes) p m =
     (case last_writer routes p m of
        Some r \<Rightarrow> Some r
      | None \<Rightarrow> if writes_entry route p m then Some route else None)"
  by (simp add: last_writer_def find_append split: option.splits)

lemma operation_at_update:
  "operation_at
     (paths(q \<mapsto> (case paths q of None \<Rightarrow> Map.empty | Some item \<Rightarrow> item)(n \<mapsto> operation))) p m =
     (if q = p \<and> n = m then Some operation else operation_at paths p m)"
  by (simp add: operation_at_def split: option.splits)

text \<open>The loop invariant of the assembly: an entry holds the operation of its last
  writer, and what was there before when no route writes it.\<close>

lemma operation_at_swagger_paths:
  "operation_at (swagger_paths routes paths) p m =
     (case last_writer routes p m of
        Some route \<Rightarrow> Some (operation_of route)
      | None \<Rightarrow> operation_at paths p m)"
proof (induction routes arbitrary: paths)
  case Nil
  show ?case by (simp add: last_writer_def)
next
  case (Cons route routes)
  show ?case
  proof (cases "skipped_path (Path route)")
    case True
    then show ?thesis
      by (simp add: Cons.IH last_writer_Cons writes_entry_def split: option.splits)
  next
    case False
    then show ?thesis
      by (simp add: Cons.IH last_writer_Cons writes_entry_def operation_at_update Let_def
          split: option.splits)
  qed
qed

lemma operation_at_document:
  "operation_at (getSwaggerJSON_paths routes) p m =
     map_option operation_of (last_writer routes p m)"
  unfolding getSwaggerJSON_paths_def operation_at_swagger_paths
  by (simp add: operation_at_def split: option.splits)

lemma last_writer_later:
  assumes "\<not> skipped_path (Path r2)"
    and "\<forall>r \<in> set post. \<not> writes_entry r (convertToOpenAPIPath (Path r2)) (ToLower (Method r2))"
  shows "last_writer (pre @ r2 # post) (convertToOpenAPIPath (Path r2)) (ToLower (Method r2))
         = Some r2"
proof -
  have "List.find (\<lambda>r. writes_entry r (convertToOpenAPIPath (Path r2)) (ToLower (Method r2)))
          (rev post) = None"
    using assms(2) by (simp add: find_None_iff)
  then show ?thesis
    using assms(1) by (simp add: last_writer_def find_append writes_entry_def)
qed

subsection \<open>Validation error formatting\<close>

lemma format_loop_append:
  "format_loop sprint fes acc = acc @ map (format_field_error sprint) fes"
  by (induction fes arbitrary: acc) simp_all

subsection \<open>The dependency container\<close>



lemma RegisterSingleton_fresh:
  "RegisterSingleton NewDependencyContainer provider (Dyn w r) =
     Returns () (NewDependencyContainer
                   \<lparr>providers := [type_key w \<mapsto> Memoizing (type_key w) provider]\<rparr>)"
  by (simp add: RegisterSingleton_def NewDependencyContainer_def Lock_def Unlock_def type_key_def
      Let_def)


subsection \<open>Concurrent calls of the memoizing closure\<close>

lemma sum_list_map_update:
  "t < length ps \<Longrightarrow>
     sum_list (map f (ps[t := x])) + f (ps ! t) = sum_list (map f ps) + (f x :: nat)"
proof (induction ps arbitrary: t)
  case Nil
  then show ?case by simp
next
  case (Cons a ps)
  then show ?case by (cases t) auto
qed

lemma sum_list_ge_nth: "t < length ps \<Longrightarrow> (f (ps ! t) :: nat) \<le> sum_list (map f ps)"
proof (induction ps arbitrary: t)
  case Nil
  then show ?case by simp
next
  case (Cons a ps)
  then show ?case by (cases t) (auto simp add: le_SucI trans_le_add2)
qed

lemma step_length:
  "step T p cs t s = Some s' \<Longrightarrow> length (goroutines s') = length (goroutines s)"
  by (auto simp add: step_def split: if_splits option.splits)

lemma sum_list_two_nth:
  "t < length ps \<Longrightarrow> u < length ps \<Longrightarrow> t \<noteq> u \<Longrightarrow>
     (f (ps ! t) :: nat) + f (ps ! u) \<le> sum_list (map f ps)"
proof (induction ps arbitrary: t u)
  case Nil
  then show ?case by simp
next
  case (Cons a ps)
  show ?case
  proof (cases t)
    case 0
    then obtain u' where u: "u = Suc u'" using Cons.prems by (cases u) auto
    then have "f (ps ! u') \<le> sum_list (map f ps)"
      using Cons.prems sum_list_ge_nth [of u' ps f] by simp
    then show ?thesis using 0 u by simp
  next
    case (Suc t')
    show ?thesis
    proof (cases u)
      case 0
      have "f (ps ! t') \<le> sum_list (map f ps)"
        using Cons.prems Suc sum_list_ge_nth [of t' ps f] by simp
      then show ?thesis using 0 Suc by simp
    next
      case (Suc u')
      then show ?thesis using Cons.prems \<open>t = Suc t'\<close> Cons.IH [of t' u'] by simp
    qed
  qed
qed

lemma all_update:
  "t < length ps \<Longrightarrow>
     (\<forall>u < length ps. Q (ps[t := x] ! u)) = (Q x \<and> (\<forall>u < length ps. u \<noteq> t \<longrightarrow> Q (ps ! u)))"
  by (auto simp add: nth_list_update)

lemma ex_update:
  "t < length ps \<Longrightarrow>
     (\<exists>u < length ps. Q (ps[t := x] ! u)) = (Q x \<or> (\<exists>u < length ps. u \<noteq> t \<and> Q (ps ! u)))"
  by (auto simp add: nth_list_update)

lemma stepE:
  assumes "step T p cs t s = Some s'"
  obtains pc dc where "t < length (goroutines s)" and "t < length cs"
    and "closure_step T p (cs ! t) (goroutines s ! t) (shared s) = Some (pc, dc)"
    and "s' = \<lparr>shared = dc, goroutines = (goroutines s)[t := pc]\<rparr>"
  using assms by (auto simp add: step_def split: if_splits option.splits)

lemma lock_inv_step:
  assumes "lock_inv s" and "step T p cs t s = Some s'"
  shows "lock_inv s'"
proof -
  obtain pc dc where t: "t < length (goroutines s)"
    and cst: "closure_step T p (cs ! t) (goroutines s ! t) (shared s) = Some (pc, dc)"
    and s': "s' = \<lparr>shared = dc, goroutines = (goroutines s)[t := pc]\<rparr>"
    using assms(2) by (rule stepE)
  define R where "R = sum_list (map reads_held (goroutines s))"
  define W where "W = sum_list (map writes_held (goroutines s))"
  define R' where "R' = sum_list (map reads_held ((goroutines s)[t := pc]))"
  define W' where "W' = sum_list (map writes_held ((goroutines s)[t := pc]))"
  have r: "R' + reads_held (goroutines s ! t) = R + reads_held pc"
    unfolding R_def R'_def by (rule sum_list_map_update [OF t])
  have w: "W' + writes_held (goroutines s ! t) = W + writes_held pc"
    unfolding W_def W'_def by (rule sum_list_map_update [OF t])
  have rg: "reads_held (goroutines s ! t) \<le> R"
    unfolding R_def by (rule sum_list_ge_nth [OF t])
  have wg: "writes_held (goroutines s ! t) \<le> W"
    unfolding W_def by (rule sum_list_ge_nth [OF t])
  have inv: "readers (mutex (shared s)) = R \<and> W \<le> 1 \<and> writer (mutex (shared s)) = (W = 1)"
    using assms(1) by (simp add: lock_inv_def R_def W_def)
  have "readers (mutex dc) = R' \<and> W' \<le> 1 \<and> writer (mutex dc) = (W' = 1)"
  proof (cases "goroutines s ! t")
    case (Called res)
    then show ?thesis
      using inv cst r w rg wg
      by (cases res) (auto simp add: RLock_def RUnlock_def Lock_def Unlock_def
          split: option.splits if_splits)
  qed (use inv cst r w rg wg in
        \<open>auto simp add: RLock_def RUnlock_def Lock_def Unlock_def
           split: option.splits if_splits\<close>)
  then show ?thesis
    by (simp add: lock_inv_def s' R'_def W'_def)
qed


lemma pc_ok_mutex [simp]: "pc_ok T n0 (dc\<lparr>mutex := m\<rparr>) pc = pc_ok T n0 dc pc"
  by (cases pc) simp_all

lemma pc_ok_invocations:
  "writes_held pc = 0 \<Longrightarrow> pc_ok T n0 (dc\<lparr>invocations := k\<rparr>) pc = pc_ok T n0 dc pc"
  by (cases pc) simp_all

lemma pc_ok_store:
  "writes_held pc = 0 \<Longrightarrow> instances dc T = None \<Longrightarrow> pc_ok T n0 dc pc \<Longrightarrow>
     pc_ok T n0 (dc\<lparr>instances := (instances dc)(T \<mapsto> i)\<rparr>) pc"
  by (cases pc) simp_all

lemma single_writer:
  assumes "lock_inv s" and "t < length (goroutines s)" and "u < length (goroutines s)"
    and "u \<noteq> t" and "writes_held (goroutines s ! t) = 1"
  shows "writes_held (goroutines s ! u) = 0"
proof -
  have "writes_held (goroutines s ! t) + writes_held (goroutines s ! u)
          \<le> sum_list (map writes_held (goroutines s))"
    using assms(2,3,4) by (intro sum_list_two_nth) auto
  then show ?thesis using assms(1,5) by (simp add: lock_inv_def)
qed

lemma memo_inv_step:
  assumes "lock_inv s" and "memo_inv T n0 s" and "\<forall>c \<in> set cs. snd (p c n0) = None"
    and "step T p cs t s = Some s'"
  shows "memo_inv T n0 s'"
proof -
  obtain pc dc where t: "t < length (goroutines s)" and tc: "t < length cs"
    and cst: "closure_step T p (cs ! t) (goroutines s ! t) (shared s) = Some (pc, dc)"
    and s': "s' = \<lparr>shared = dc, goroutines = (goroutines s)[t := pc]\<rparr>"
    using assms(4) by (rule stepE)
  let ?ps = "goroutines s"
  let ?dc = "shared s"
  have self: "pc_ok T n0 ?dc (?ps ! t)"
    using assms(2) t by (simp add: memo_inv_def)
  have others: "\<forall>u < length ?ps. u \<noteq> t \<longrightarrow> pc_ok T n0 ?dc (?ps ! u)"
    using assms(2) by (simp add: memo_inv_def)
  have excl: "writes_held (?ps ! t) = 1 \<Longrightarrow> \<forall>u < length ?ps. u \<noteq> t \<longrightarrow> writes_held (?ps ! u) = 0"
    using single_writer [OF assms(1) t] by blast
  have B0: "instances ?dc T = None \<Longrightarrow>
      invocations ?dc = n0 \<or> (\<exists>u < length ?ps. is_Called (?ps ! u))"
    using assms(2) by (simp add: memo_inv_def)
  have B: "instances ?dc T = None \<Longrightarrow>
      invocations ?dc = n0 \<or> is_Called (?ps ! t)
      \<or> (\<exists>u < length ?ps. u \<noteq> t \<and> is_Called (?ps ! u))"
    using B0 by blast
  have C: "instances ?dc T \<noteq> None \<Longrightarrow> invocations ?dc = n0 + 1"
    using assms(2) by (simp add: memo_inv_def)
  have H: "snd (p (cs ! t) n0) = None"
    using assms(3) tc by simp
  have goal: "(pc_ok T n0 dc pc \<and> (\<forall>u < length ?ps. u \<noteq> t \<longrightarrow> pc_ok T n0 dc (?ps ! u)))
      \<and> (instances dc T = None \<longrightarrow>
            invocations dc = n0 \<or> is_Called pc
            \<or> (\<exists>u < length ?ps. u \<noteq> t \<and> is_Called (?ps ! u)))
      \<and> (instances dc T \<noteq> None \<longrightarrow> invocations dc = n0 + 1)"
  proof (cases "?ps ! t")
    case Start
    then show ?thesis using cst self others B C
      by (auto simp add: RLock_def split: if_splits)
  next
    case ReadLocked
    then show ?thesis using cst self others B C
      by (auto split: option.splits)
  next
    case (Hit i)
    then show ?thesis using cst self others B C by auto
  next
    case Miss
    then show ?thesis using cst self others B C by auto
  next
    case WantWrite
    then show ?thesis using cst self others B C
      by (auto simp add: Lock_def split: if_splits)
  next
    case WriteLocked
    have "\<not> (\<exists>u < length ?ps. is_Called (?ps ! u))"
    proof
      assume "\<exists>u < length ?ps. is_Called (?ps ! u)"
      then obtain u where u: "u < length ?ps" "is_Called (?ps ! u)" by blast
      then have "u \<noteq> t" using WriteLocked by auto
      then have "writes_held (?ps ! u) = 0" using excl WriteLocked u(1) by simp
      then show False using u(2) by (cases "?ps ! u") simp_all
    qed
    then have "instances ?dc T = None \<Longrightarrow> invocations ?dc = n0" using B0 by blast
    then show ?thesis using WriteLocked cst self others C
      by (auto split: option.splits)
  next
    case (HitW i)
    then show ?thesis using cst self others B C by auto
  next
    case MissW
    have o: "\<forall>u < length ?ps. u \<noteq> t \<longrightarrow> writes_held (?ps ! u) = 0"
      using excl MissW by simp
    have "\<forall>u < length ?ps. u \<noteq> t \<longrightarrow>
        pc_ok T n0 (?dc\<lparr>invocations := invocations ?dc + 1\<rparr>) (?ps ! u)"
      using o others by (simp add: pc_ok_invocations)
    then show ?thesis using MissW cst self H by auto
  next
    case (Called res)
    obtain i e where res: "res = (i, e)" by (cases res)
    have e: "e = None" using self Called res by simp
    have n: "instances ?dc T = None" using self Called by simp
    have o: "\<forall>u < length ?ps. u \<noteq> t \<longrightarrow> writes_held (?ps ! u) = 0"
      using excl Called by simp
    have "\<forall>u < length ?ps. u \<noteq> t \<longrightarrow>
        pc_ok T n0 (?dc\<lparr>instances := (instances ?dc)(T \<mapsto> i)\<rparr>) (?ps ! u)"
      using o others n by (simp add: pc_ok_store)
    then show ?thesis using Called res e cst self by auto
  next
    case (Stored i)
    then show ?thesis using cst self others B C by auto
  next
    case (Done r)
    then show ?thesis using cst by simp
  qed
  show ?thesis
    unfolding memo_inv_def s' using goal t
    by (simp add: all_update ex_update)
qed

lemma run_append: "run T p cs (a @ b) s = run T p cs b (run T p cs a s)"
  by (induction a arbitrary: s) (simp_all split: option.splits)

lemma run_length: "length (goroutines (run T p cs schedule s)) = length (goroutines s)"
  by (induction schedule arbitrary: s) (auto simp add: step_length split: option.splits)

lemma invs_run:
  assumes "\<forall>c \<in> set cs. snd (p c n0) = None"
  shows "lock_inv s \<Longrightarrow> memo_inv T n0 s \<Longrightarrow>
     lock_inv (run T p cs schedule s) \<and> memo_inv T n0 (run T p cs schedule s)"
proof (induction schedule arbitrary: s)
  case Nil
  then show ?case by simp
next
  case (Cons t schedule)
  show ?case
  proof (cases "step T p cs t s")
    case None
    then show ?thesis using Cons by simp
  next
    case (Some s')
    have "lock_inv s'" using Cons.prems(1) Some by (rule lock_inv_step)
    moreover have "memo_inv T n0 s'"
      using Cons.prems(1,2) assms Some by (rule memo_inv_step)
    ultimately show ?thesis using Cons.IH [of s'] Some by simp
  qed
qed

lemma lock_inv_run: "lock_inv s \<Longrightarrow> lock_inv (run T p cs schedule s)"
proof (induction schedule arbitrary: s)
  case Nil
  then show ?case by simp
next
  case (Cons t schedule)
  then show ?case by (cases "step T p cs t s") (auto dest: lock_inv_step)
qed

lemma invs_init:
  assumes "instances dc T = None" and "mutex dc = \<lparr>readers = 0, writer = False\<rparr>"
  shows "lock_inv (concurrent_calls dc cs)" and "memo_inv T (invocations dc) (concurrent_calls dc cs)"
  using assms by (simp_all add: lock_inv_def memo_inv_def concurrent_calls_def sum_list_replicate)

lemma sum_list_zero:
  "\<forall>u < length ps. f (ps ! u) = (0::nat) \<Longrightarrow> sum_list (map f ps) = 0"
  by (simp add: all_set_conv_all_nth)

lemma progress:
  assumes "lock_inv s" and "length cs = length (goroutines s)"
    and "t < length (goroutines s)" and "\<not> is_Done (goroutines s ! t)"
  shows "\<exists>u < length (goroutines s). step T p cs u s \<noteq> None"
proof (cases "\<exists>u < length (goroutines s). reads_held (goroutines s ! u) \<noteq> 0
                \<or> writes_held (goroutines s ! u) \<noteq> 0")
  case True
  then obtain u where u: "u < length (goroutines s)"
    and h: "reads_held (goroutines s ! u) \<noteq> 0 \<or> writes_held (goroutines s ! u) \<noteq> 0" by blast
  have "step T p cs u s \<noteq> None"
    using u h assms(2)
    by (cases "goroutines s ! u") (auto simp add: step_def split: option.splits)
  then show ?thesis using u by blast
next
  case False
  then have r0: "sum_list (map reads_held (goroutines s)) = 0"
    and w0: "sum_list (map writes_held (goroutines s)) = 0"
    by (simp_all add: sum_list_zero)
  then have m: "readers (mutex (shared s)) = 0" "\<not> writer (mutex (shared s))"
    using assms(1) by (simp_all add: lock_inv_def del: sum_list_eq_0_iff)
  have "reads_held (goroutines s ! t) = 0" "writes_held (goroutines s ! t) = 0"
    using False assms(3) by auto
  then have "step T p cs t s \<noteq> None"
    using assms(2,3,4) m
    by (cases "goroutines s ! t")
       (auto simp add: step_def RLock_def Lock_def split: option.splits)
  then show ?thesis using assms(3) by blast
qed

lemma closure_step_decreases:
  "closure_step T p c pc dc = Some (pc', dc') \<Longrightarrow> steps_left pc' < steps_left pc"
  by (cases pc) (auto split: option.splits prod.splits)

lemma step_decreases:
  assumes "step T p cs t s = Some s'"
  shows "sum_list (map steps_left (goroutines s')) < sum_list (map steps_left (goroutines s))"
proof -
  obtain pc dc where t: "t < length (goroutines s)"
    and cst: "closure_step T p (cs ! t) (goroutines s ! t) (shared s) = Some (pc, dc)"
    and s': "s' = \<lparr>shared = dc, goroutines = (goroutines s)[t := pc]\<rparr>"
    using assms by (rule stepE)
  have "sum_list (map steps_left ((goroutines s)[t := pc])) + steps_left (goroutines s ! t)
        = sum_list (map steps_left (goroutines s)) + steps_left pc"
    by (rule sum_list_map_update [OF t])
  then show ?thesis using closure_step_decreases [OF cst] by (simp add: s')
qed

lemma completion:
  "lock_inv s \<Longrightarrow> length cs = length (goroutines s) \<Longrightarrow>
     \<exists>more. \<forall>t < length (goroutines s). is_Done (goroutines (run T p cs more s) ! t)"
proof (induction "sum_list (map steps_left (goroutines s))" arbitrary: s rule: less_induct)
  case less
  show ?case
  proof (cases "\<forall>t < length (goroutines s). is_Done (goroutines s ! t)")
    case True
    then have "\<forall>t < length (goroutines s). is_Done (goroutines (run T p cs [] s) ! t)" by simp
    then show ?thesis by blast
  next
    case False
    then obtain t where "t < length (goroutines s)" "\<not> is_Done (goroutines s ! t)" by blast
    then obtain u s' where st: "step T p cs u s = Some s'"
      using progress [OF less.prems(1,2)] by blast
    have l: "length (goroutines s') = length (goroutines s)" using st by (rule step_length)
    have "\<exists>more. \<forall>t < length (goroutines s'). is_Done (goroutines (run T p cs more s') ! t)"
      using less.hyps [OF step_decreases [OF st] lock_inv_step [OF less.prems(1) st]]
        less.prems(2) l by simp
    then obtain more where
      "\<forall>t < length (goroutines s). is_Done (goroutines (run T p cs more s') ! t)"
      using l by auto
    then have "\<forall>t < length (goroutines s). is_Done (goroutines (run T p cs (u # more) s) ! t)"
      using st by simp
    then show ?thesis by blast
  qed
qed

lemma stuck_inv_step:
  assumes "stuck_inv k T n0 s" and "0 < k" and "step T p cs t s = Some s'"
  shows "stuck_inv k T n0 s'"
proof -
  obtain pc dc where t: "t < length (goroutines s)"
    and cst: "closure_step T p (cs ! t) (goroutines s ! t) (shared s) = Some (pc, dc)"
    and s': "s' = \<lparr>shared = dc, goroutines = (goroutines s)[t := pc]\<rparr>"
    using assms(3) by (rule stepE)
  define R where "R = sum_list (map reads_held (goroutines s))"
  define R' where "R' = sum_list (map reads_held ((goroutines s)[t := pc]))"
  have r: "R' + reads_held (goroutines s ! t) = R + reads_held pc"
    unfolding R_def R'_def by (rule sum_list_map_update [OF t])
  have rg: "reads_held (goroutines s ! t) \<le> R"
    unfolding R_def by (rule sum_list_ge_nth [OF t])
  have inv: "readers (mutex (shared s)) = k + R" "\<not> writer (mutex (shared s))"
    "instances (shared s) T = None" "invocations (shared s) = n0"
    "before_write (goroutines s ! t)"
    "\<forall>u < length (goroutines s). u \<noteq> t \<longrightarrow> before_write (goroutines s ! u)"
    using assms(1) t by (simp_all add: stuck_inv_def R_def)
  have "readers (mutex dc) = k + R' \<and> \<not> writer (mutex dc) \<and> instances dc T = None
        \<and> invocations dc = n0 \<and> before_write pc"
    using inv(1-5) cst r rg assms(2)
    by (cases "goroutines s ! t")
       (auto simp add: RLock_def RUnlock_def Lock_def split: option.splits if_splits)
  then show ?thesis
    using inv(6) t by (simp add: stuck_inv_def s' R'_def all_update)
qed

lemma stuck_inv_run:
  "stuck_inv k T n0 s \<Longrightarrow> 0 < k \<Longrightarrow> stuck_inv k T n0 (run T p cs schedule s)"
proof (induction schedule arbitrary: s)
  case Nil
  then show ?case by simp
next
  case (Cons t schedule)
  then show ?case by (cases "step T p cs t s") (auto dest: stuck_inv_step)
qed

text \<open>The two models of the closure agree: a single goroutine, on a container whose lock
  is free, reaches in eight operations the result and the container that
  \<open>singleton_provider\<close> gives.\<close>

lemma closure_alone:
  assumes "mutex dc = \<lparr>readers = 0, writer = False\<rparr>"
  shows "\<exists>r dc'. singleton_provider T p c dc = Returns r dc'
           \<and> run T p [c] [0, 0, 0, 0, 0, 0, 0, 0] (concurrent_calls dc [c])
               = \<lparr>shared = dc', goroutines = [Done r]\<rparr>"
proof (cases "instances dc T")
  case (Some i)
  then show ?thesis
    using assms
    by (simp add: singleton_provider_def concurrent_calls_def step_def RLock_def RUnlock_def)
next
  case None
  obtain i e where pe: "p c (invocations dc) = (i, e)" by (cases "p c (invocations dc)")
  show ?thesis
  proof (cases e)
    case None': None
    show ?thesis
      using assms None pe None'
      by (simp add: singleton_provider_def concurrent_calls_def step_def RLock_def RUnlock_def
          Lock_def Unlock_def)
  next
    case (Some err)
    show ?thesis
      using assms None pe Some
      by (simp add: singleton_provider_def concurrent_calls_def step_def RLock_def RUnlock_def
          Lock_def Unlock_def)
  qed
qed

section \<open>Properties of schema synthesis\<close>

text \<open>
  C4. For an example that is a struct, or a non-nil pointer to a struct, the required
  list of the synthesized schema is exactly the list of the fields whose \<open>json\<close> tag
  has no \<open>omitempty\<close> option, in declaration order, each under the name the schema
  uses for it. A field without \<open>json\<close> tag has no such option and is required. This
  holds for every struct, in particular for flat structs of primitive fields.
\<close>

theorem required_list_exact:
  "required_list (generateSchemaFromStruct (Some (StructValue fs))) = required_fields fs
   \<and> required_list (generateSchemaFromStruct (Some (Pointer (StructValue fs)))) = required_fields fs
   \<and> (Get (sf_Tag field) ''json'' = [] \<longrightarrow> \<not> omit_when_empty field)"
proof -
  have "snd (struct_fields fs Map.empty []) = required_fields fs"
    using struct_fields_required [of fs Map.empty "[]"] by simp
  then show ?thesis
    by (auto simp add: generateSchemaFromStruct_def required_list_def Let_def omit_when_empty_def
        split: prod.splits)
qed

text \<open>A struct with a named field, an optional field, an untagged field and a field
  with tag \<open>-\<close>.\<close>

theorem required_list_exact_witness:
  "required_list (generateSchemaFromStruct (Some (StructValue
      [(\<lparr>sf_Name = ''Name'', sf_Tag = [(''json'', ''name'')]\<rparr>, Atom String),
       (\<lparr>sf_Name = ''Email'', sf_Tag = [(''json'', ''email,omitempty'')]\<rparr>, Atom String),
       (\<lparr>sf_Name = ''Age'', sf_Tag = []\<rparr>, Atom IntK),
       (\<lparr>sf_Name = ''Secret'', sf_Tag = [(''json'', ''-'')]\<rparr>, Atom Bool)])))
   = [''name'', ''Age'', ''Secret'']
   \<and> \<not> omit_when_empty \<lparr>sf_Name = ''Age'', sf_Tag = []\<rparr>"
  using required_list_exact [of
      "[(\<lparr>sf_Name = ''Name'', sf_Tag = [(''json'', ''name'')]\<rparr>, Atom String),
        (\<lparr>sf_Name = ''Email'', sf_Tag = [(''json'', ''email,omitempty'')]\<rparr>, Atom String),
        (\<lparr>sf_Name = ''Age'', sf_Tag = []\<rparr>, Atom IntK),
        (\<lparr>sf_Name = ''Secret'', sf_Tag = [(''json'', ''-'')]\<rparr>, Atom Bool)]"
      "\<lparr>sf_Name = ''Age'', sf_Tag = []\<rparr>"]
  by (simp add: required_fields_def omit_when_empty_def schema_name_def Get_def)

text \<open>
  C5, as the code has it. A non-nil pointer field has the schema of the value it points
  to. For every other field value: the kinds \<open>Int\<close>, \<open>Int8\<close>, \<open>Int16\<close>, \<open>Int32\<close>,
  \<open>Int64\<close>, \<open>Uint\<close>, \<open>Uint8\<close>, \<open>Uint16\<close>, \<open>Uint32\<close> and \<open>Uint64\<close> give type
  integer with format int64; \<open>Float32\<close> gives number with float and \<open>Float64\<close> number
  with double; \<open>Bool\<close> gives boolean and \<open>String\<close> gives string, both without format;
  \<open>Slice\<close> and \<open>Array\<close> give array with items of type string; a nil pointer and every
  remaining kind, the integer kind \<open>Uintptr\<close> among them, give string without format.
\<close>

theorem getFieldSchema_by_kind:
  "getFieldSchema (Pointer v) field = getFieldSchema v field
   \<and> (\<not> (Kind v = Ptr \<and> \<not> IsNil v) \<longrightarrow>
        (Kind v \<in> {IntK, Int8, Int16, Int32, Int64, Uint, Uint8, Uint16, Uint32, Uint64} \<longrightarrow>
           getFieldSchema v field ''type'' = Some (JString ''integer'')
           \<and> getFieldSchema v field ''format'' = Some (JString ''int64''))
      \<and> (Kind v = Float32 \<longrightarrow>
           getFieldSchema v field ''type'' = Some (JString ''number'')
           \<and> getFieldSchema v field ''format'' = Some (JString ''float''))
      \<and> (Kind v = Float64 \<longrightarrow>
           getFieldSchema v field ''type'' = Some (JString ''number'')
           \<and> getFieldSchema v field ''format'' = Some (JString ''double''))
      \<and> (Kind v = Bool \<longrightarrow>
           getFieldSchema v field ''type'' = Some (JString ''boolean'')
           \<and> getFieldSchema v field ''format'' = None)
      \<and> (Kind v = String \<longrightarrow>
           getFieldSchema v field ''type'' = Some (JString ''string'')
           \<and> getFieldSchema v field ''format'' = None)
      \<and> (Kind v \<in> {Slice, Array} \<longrightarrow>
           getFieldSchema v field ''type'' = Some (JString ''array'')
           \<and> getFieldSchema v field ''items'' = Some (JObject [''type'' \<mapsto> JString ''string'']))
      \<and> (Kind v \<in> {Ptr, Uintptr, Invalid, Complex64, Complex128, Chan, Func, Interface, Map,
                     Struct, UnsafePointer} \<longrightarrow>
           getFieldSchema v field ''type'' = Some (JString ''string'')
           \<and> getFieldSchema v field ''format'' = None))"
proof (cases v)
  case (Atom k)
  then show ?thesis by (cases k) (simp_all add: Let_def)
next
  case (Pointer p)
  then show ?thesis by simp
next
  case (StructValue fs)
  then show ?thesis by (simp add: Let_def)
qed

theorem getFieldSchema_by_kind_witness:
  "getFieldSchema (Pointer (Atom Uint16)) \<lparr>sf_Name = ''Port'', sf_Tag = []\<rparr> ''type''
     = Some (JString ''integer'')
   \<and> getFieldSchema (Atom Float32) \<lparr>sf_Name = ''Ratio'', sf_Tag = []\<rparr> ''format''
     = Some (JString ''float'')
   \<and> getFieldSchema (Atom Ptr) \<lparr>sf_Name = ''Next'', sf_Tag = []\<rparr> ''type''
     = Some (JString ''string'')"
  using getFieldSchema_by_kind [of "Atom Uint16" "\<lparr>sf_Name = ''Port'', sf_Tag = []\<rparr>"]
    getFieldSchema_by_kind [of "Atom Float32" "\<lparr>sf_Name = ''Ratio'', sf_Tag = []\<rparr>"]
    getFieldSchema_by_kind [of "Atom Ptr" "\<lparr>sf_Name = ''Next'', sf_Tag = []\<rparr>"]
  by simp

text \<open>C5 as stated fails at a field of the unsigned integer type \<open>uintptr\<close>: its
  schema is not integer with int64, the switch sends it to the default.\<close>

theorem getFieldSchema_uintptr_counterexample:
  "getFieldSchema (Atom Uintptr) \<lparr>sf_Name = ''Handle'', sf_Tag = []\<rparr> ''type''
     = Some (JString ''string'')
   \<and> getFieldSchema (Atom Uintptr) \<lparr>sf_Name = ''Handle'', sf_Tag = []\<rparr> ''type''
     \<noteq> Some (JString ''integer'')
   \<and> getFieldSchema (Atom Uintptr) \<lparr>sf_Name = ''Handle'', sf_Tag = []\<rparr> ''format''
     \<noteq> Some (JString ''int64'')"
  by (simp add: Get_def)

section \<open>Properties of parameter extraction and document assembly\<close>

text \<open>
  C6. The parameters extracted from a path template are, in order, one parameter for
  each segment that begins with \<open>:\<close>, named by the rest of the segment. Every such
  parameter has location path and is required; the names \<open>id\<close>, \<open>userId\<close> and
  \<open>user_id\<close> are typed integer with format int64, every other name is typed string
  and has no format.
\<close>

theorem extractParameters_one_per_token:
  "extractParameters path =
     map (\<lambda>segment. path_parameter (drop 1 segment))
         (filter (\<lambda>segment. HasPrefix segment '':'') (Split path (CHR ''/'')))
   \<and> path_parameter n ''name'' = Some (JString n)
   \<and> path_parameter n ''in'' = Some (JString ''path'')
   \<and> path_parameter n ''required'' = Some (JBool True)
   \<and> (if n = ''id'' \<or> n = ''userId'' \<or> n = ''user_id''
      then path_parameter n ''type'' = Some (JString ''integer'')
         \<and> path_parameter n ''format'' = Some (JString ''int64'')
      else path_parameter n ''type'' = Some (JString ''string'')
         \<and> path_parameter n ''format'' = None)"
  by (simp add: extractParameters_def extract_segments_append path_parameter_fields)

text \<open>The scenario of the specification: \<open>/users/:id\<close> has one parameter, \<open>id\<close>, in
  the path, of type integer and format int64; a second template has an untyped name.\<close>

theorem extractParameters_one_per_token_witness:
  "extractParameters ''/users/:id'' = [path_parameter ''id'']
   \<and> path_parameter ''id'' ''in'' = Some (JString ''path'')
   \<and> path_parameter ''id'' ''type'' = Some (JString ''integer'')
   \<and> path_parameter ''id'' ''format'' = Some (JString ''int64'')
   \<and> extractParameters ''/files/:name/raw'' = [path_parameter ''name'']
   \<and> path_parameter ''name'' ''type'' = Some (JString ''string'')
   \<and> path_parameter ''name'' ''format'' = None"
  using extractParameters_one_per_token [of "''/users/:id''" "''id''"]
    extractParameters_one_per_token [of "''/files/:name/raw''" "''name''"]
  by (simp add: HasPrefix_def)

text \<open>
  C7, as the code has it. The parameters of a route are the entries derived from its
  declared parameters, one for each and in order, whenever it declares any; the path
  template is consulted only for a route that declares none. For a route that declares
  parameters, is outside the documentation paths, and is followed by no route that
  writes the same entry (the same converted path and lower-cased method), the operation
  of its entry in the assembled document carries exactly these entries. The entry of a
  declared parameter holds its name, location, required flag and description and,
  for a body parameter with a schema, the synthesized schema; for every other
  parameter, its type and, when not empty, its format; it holds nothing else.
\<close>

theorem explicit_parameters_only:
  "getRouteParameters route =
     (if Parameters route = [] then extractParameters (Path route)
      else map declared_parameter (Parameters route))
   \<and> (Parameters r \<noteq> [] \<and> \<not> skipped_path (Path r)
       \<and> (\<forall>r' \<in> set post. \<not> writes_entry r' (convertToOpenAPIPath (Path r)) (ToLower (Method r)))
      \<longrightarrow> (\<exists>operation.
            operation_at (getSwaggerJSON_paths (pre @ r # post))
              (convertToOpenAPIPath (Path r)) (ToLower (Method r)) = Some operation
            \<and> operation ''parameters'' =
                Some (JArray (map JObject (map declared_parameter (Parameters r))))))
   \<and> (last_writer routes p m = Some r \<and> Parameters r \<noteq> [] \<longrightarrow>
        (\<exists>operation. operation_at (getSwaggerJSON_paths routes) p m = Some operation
           \<and> operation ''parameters'' =
               Some (JArray (map JObject (map declared_parameter (Parameters r))))))
   \<and> declared_parameter param ''name'' = Some (JString (Name param))
   \<and> declared_parameter param ''in'' = Some (JString (In param))
   \<and> declared_parameter param ''required'' = Some (JBool (Required param))
   \<and> declared_parameter param ''description'' = Some (JString (ParamDescription param))
   \<and> (if In param = ''body'' \<and> Schema param \<noteq> None
      then declared_parameter param ''schema''
             = Some (JObject (generateSchemaFromStruct (Schema param)))
         \<and> declared_parameter param ''type'' = None
         \<and> declared_parameter param ''format'' = None
      else declared_parameter param ''schema'' = None
         \<and> declared_parameter param ''type'' = Some (JString (Type param))
         \<and> declared_parameter param ''format''
             = (if Format param = [] then None else Some (JString (Format param))))
   \<and> dom (declared_parameter param) \<subseteq>
       {''name'', ''in'', ''required'', ''description'', ''schema'', ''type'', ''format''}"
proof -
  have "\<not> skipped_path (Path r) \<Longrightarrow>
      \<forall>r' \<in> set post. \<not> writes_entry r' (convertToOpenAPIPath (Path r)) (ToLower (Method r)) \<Longrightarrow>
      last_writer (pre @ r # post) (convertToOpenAPIPath (Path r)) (ToLower (Method r)) = Some r"
    by (rule last_writer_later)
  then have doc: "Parameters r \<noteq> [] \<and> \<not> skipped_path (Path r)
       \<and> (\<forall>r' \<in> set post. \<not> writes_entry r' (convertToOpenAPIPath (Path r)) (ToLower (Method r)))
      \<longrightarrow> (\<exists>operation.
            operation_at (getSwaggerJSON_paths (pre @ r # post))
              (convertToOpenAPIPath (Path r)) (ToLower (Method r)) = Some operation
            \<and> operation ''parameters'' =
                Some (JArray (map JObject (map declared_parameter (Parameters r)))))"
    by (simp add: getRouteParameters_eq operation_at_document operation_of_parameters)
  have content: "if In param = ''body'' \<and> Schema param \<noteq> None
      then declared_parameter param ''schema''
             = Some (JObject (generateSchemaFromStruct (Schema param)))
         \<and> declared_parameter param ''type'' = None
         \<and> declared_parameter param ''format'' = None
      else declared_parameter param ''schema'' = None
         \<and> declared_parameter param ''type'' = Some (JString (Type param))
         \<and> declared_parameter param ''format''
             = (if Format param = [] then None else Some (JString (Format param)))"
    by (auto simp add: declared_parameter_fields)
  have lw: "last_writer routes p m = Some r \<and> Parameters r \<noteq> [] \<longrightarrow>
        (\<exists>operation. operation_at (getSwaggerJSON_paths routes) p m = Some operation
           \<and> operation ''parameters'' =
               Some (JArray (map JObject (map declared_parameter (Parameters r)))))"
    by (simp add: getRouteParameters_eq operation_at_document operation_of_parameters)
  show ?thesis
    using doc lw content declared_parameter_dom [of param]
    by (simp only: getRouteParameters_eq declared_parameter_fields(1-4) simp_thms)
qed

text \<open>A route \<open>GET /items/:id\<close> that declares one query parameter: the document has
  that parameter alone, with its fields, and no path parameter \<open>id\<close> is added. A body
  parameter carries the schema synthesized from its example.\<close>

theorem explicit_parameters_only_witness:
  "(\<exists>operation.
      operation_at (getSwaggerJSON_paths
        [\<lparr>Method = ''GET'', Path = ''/items/:id'', Tags = [], Summary = [], Description = [],
          Responses = Map.empty,
          Parameters = [\<lparr>Name = ''verbose'', In = ''query'', Type = ''boolean'', Format = [],
                         Required = False, ParamDescription = ''More detail'',
                         Schema = None\<rparr>]\<rparr>]) ''/items/{id}'' ''get'' = Some operation
      \<and> operation ''parameters'' =
          Some (JArray [JObject (declared_parameter
                  \<lparr>Name = ''verbose'', In = ''query'', Type = ''boolean'', Format = [],
                    Required = False, ParamDescription = ''More detail'', Schema = None\<rparr>)]))
   \<and> declared_parameter
         \<lparr>Name = ''verbose'', In = ''query'', Type = ''boolean'', Format = [],
           Required = False, ParamDescription = ''More detail'', Schema = None\<rparr> ''name''
       = Some (JString ''verbose'')
   \<and> declared_parameter
         \<lparr>Name = ''verbose'', In = ''query'', Type = ''boolean'', Format = [],
           Required = False, ParamDescription = ''More detail'', Schema = None\<rparr> ''in''
       = Some (JString ''query'')
   \<and> declared_parameter
         \<lparr>Name = ''verbose'', In = ''query'', Type = ''boolean'', Format = [],
           Required = False, ParamDescription = ''More detail'', Schema = None\<rparr> ''type''
       = Some (JString ''boolean'')
   \<and> declared_parameter
         \<lparr>Name = ''verbose'', In = ''query'', Type = ''boolean'', Format = [],
           Required = False, ParamDescription = ''More detail'', Schema = None\<rparr> ''format''
       = None
   \<and> declared_parameter
         \<lparr>Name = ''body'', In = ''body'', Type = [], Format = [], Required = True,
           ParamDescription = ''User data'', Schema = Some (Atom String)\<rparr> ''schema''
       = Some (JObject (generateSchemaFromStruct (Some (Atom String))))"
  using explicit_parameters_only [where
      pre = "[]" and post = "[]" and routes = "[]" and p = "[]" and m = "[]"
      and route = "\<lparr>Method = ''GET'', Path = ''/items/:id'', Tags = [], Summary = [],
                 Description = [], Responses = Map.empty,
                 Parameters = [\<lparr>Name = ''verbose'', In = ''query'', Type = ''boolean'',
                                Format = [], Required = False,
                                ParamDescription = ''More detail'', Schema = None\<rparr>]\<rparr>"
      and r = "\<lparr>Method = ''GET'', Path = ''/items/:id'', Tags = [], Summary = [],
                 Description = [], Responses = Map.empty,
                 Parameters = [\<lparr>Name = ''verbose'', In = ''query'', Type = ''boolean'',
                                Format = [], Required = False,
                                ParamDescription = ''More detail'', Schema = None\<rparr>]\<rparr>"
      and param = "\<lparr>Name = ''verbose'', In = ''query'', Type = ''boolean'', Format = [],
                     Required = False, ParamDescription = ''More detail'', Schema = None\<rparr>"]
    explicit_parameters_only [where
      pre = "[]" and post = "[]" and routes = "[]" and p = "[]" and m = "[]"
      and route = "\<lparr>Method = ''GET'', Path = ''/items/:id'', Tags = [], Summary = [],
                 Description = [], Responses = Map.empty, Parameters = []\<rparr>"
      and r = "\<lparr>Method = ''GET'', Path = ''/items/:id'', Tags = [], Summary = [],
                 Description = [], Responses = Map.empty, Parameters = []\<rparr>"
      and param = "\<lparr>Name = ''body'', In = ''body'', Type = [], Format = [], Required = True,
                     ParamDescription = ''User data'', Schema = Some (Atom String)\<rparr>"]
  by (simp add: skipped_path_def convertToOpenAPIPath_items_id ToLower_GET)

text \<open>C7 as stated fails for a route whose entry is written again and for a route on a
  documentation path. \<open>GET /items/:id\<close> with a declared parameter \<open>verbose\<close>, followed
  by \<open>GET /items/:id\<close> without declared parameters: the operation of the entry is the
  one of the second route and carries the extracted parameter \<open>id\<close>, not \<open>verbose\<close>.
  \<open>POST /docs\<close> with a declared parameter: the document has no operation for it.\<close>

theorem explicit_parameters_only_counterexample:
  "operation_at (getSwaggerJSON_paths
      [\<lparr>Method = ''GET'', Path = ''/items/:id'', Tags = [], Summary = [], Description = [],
         Responses = Map.empty,
         Parameters = [\<lparr>Name = ''verbose'', In = ''query'', Type = ''boolean'', Format = [],
                        Required = False, ParamDescription = ''More detail'', Schema = None\<rparr>]\<rparr>,
       \<lparr>Method = ''GET'', Path = ''/items/:id'', Tags = [], Summary = [], Description = [],
         Responses = Map.empty, Parameters = []\<rparr>])
      ''/items/{id}'' ''get''
    = Some (operation_of \<lparr>Method = ''GET'', Path = ''/items/:id'', Tags = [], Summary = [],
                           Description = [], Responses = Map.empty, Parameters = []\<rparr>)
   \<and> operation_of \<lparr>Method = ''GET'', Path = ''/items/:id'', Tags = [], Summary = [],
                    Description = [], Responses = Map.empty, Parameters = []\<rparr> ''parameters''
     = Some (JArray [JObject (path_parameter ''id'')])
   \<and> path_parameter ''id'' ''name'' = Some (JString ''id'')
   \<and> declared_parameter \<lparr>Name = ''verbose'', In = ''query'', Type = ''boolean'', Format = [],
                          Required = False, ParamDescription = ''More detail'', Schema = None\<rparr>
         ''name'' = Some (JString ''verbose'')
   \<and> operation_at (getSwaggerJSON_paths
      [\<lparr>Method = ''POST'', Path = ''/docs'', Tags = [], Summary = [], Description = [],
         Responses = Map.empty,
         Parameters = [\<lparr>Name = ''verbose'', In = ''query'', Type = ''boolean'', Format = [],
                        Required = False, ParamDescription = ''More detail'', Schema = None\<rparr>]\<rparr>])
      (convertToOpenAPIPath ''/docs'') (ToLower ''POST'') = None"
  by (simp add: operation_at_document last_writer_def writes_entry_def skipped_path_def
      convertToOpenAPIPath_items_id ToLower_GET operation_of_parameters getRouteParameters_eq
      extractParameters_def HasPrefix_def path_parameter_fields declared_parameter_fields)

text \<open>
  C8, as the code has it. The operation stored in the assembled document under a
  converted path and a lower-cased method is the one built from the last registered
  route that is outside the documentation paths and has that converted path and that
  lower-cased method; there is no operation when there is no such route. So for two
  routes with the same method and the same path outside the documentation paths, the
  document holds the operation of the later one, unless a route registered after both
  writes the same entry. The summary of an operation is the summary of its route, and
  \<open>API endpoint\<close> when that is empty.
\<close>

theorem last_write_wins:
  "operation_at (getSwaggerJSON_paths routes) p m = map_option operation_of (last_writer routes p m)
   \<and> (Method earlier = Method later \<and> Path earlier = Path later \<and> \<not> skipped_path (Path later)
       \<and> (\<forall>r \<in> set post. \<not> writes_entry r (convertToOpenAPIPath (Path later)) (ToLower (Method later)))
      \<longrightarrow> operation_at (getSwaggerJSON_paths (pre @ earlier # mid @ later # post))
            (convertToOpenAPIPath (Path later)) (ToLower (Method later)) = Some (operation_of later))
   \<and> operation_of r ''summary'' =
       Some (JString (if Summary r = [] then ''API endpoint'' else Summary r))"
proof -
  have "\<not> skipped_path (Path later) \<Longrightarrow>
      \<forall>r \<in> set post. \<not> writes_entry r (convertToOpenAPIPath (Path later)) (ToLower (Method later)) \<Longrightarrow>
      last_writer (pre @ earlier # mid @ later # post) (convertToOpenAPIPath (Path later))
        (ToLower (Method later)) = Some later"
    using last_writer_later [of later post "pre @ earlier # mid"] by simp
  then show ?thesis
    by (simp add: operation_at_document operation_of_summary)
qed

text \<open>The scenario of the specification: \<open>GET /a\<close> registered twice.\<close>

theorem last_write_wins_witness:
  "operation_at (getSwaggerJSON_paths
      [\<lparr>Method = ''GET'', Path = ''/a'', Tags = [], Summary = ''first'', Description = [],
         Responses = Map.empty, Parameters = []\<rparr>,
       \<lparr>Method = ''GET'', Path = ''/a'', Tags = [], Summary = ''second'', Description = [],
         Responses = Map.empty, Parameters = []\<rparr>]) ''/a'' ''get''
   = Some (operation_of \<lparr>Method = ''GET'', Path = ''/a'', Tags = [], Summary = ''second'',
                          Description = [], Responses = Map.empty, Parameters = []\<rparr>)
   \<and> operation_of \<lparr>Method = ''GET'', Path = ''/a'', Tags = [], Summary = ''second'',
                    Description = [], Responses = Map.empty, Parameters = []\<rparr> ''summary''
     = Some (JString ''second'')"
  using last_write_wins [where
      earlier = "\<lparr>Method = ''GET'', Path = ''/a'', Tags = [], Summary = ''first'', Description = [],
              Responses = Map.empty, Parameters = []\<rparr>"
      and later = "\<lparr>Method = ''GET'', Path = ''/a'', Tags = [], Summary = ''second'',
                  Description = [], Responses = Map.empty, Parameters = []\<rparr>"
      and r = "\<lparr>Method = ''GET'', Path = ''/a'', Tags = [], Summary = ''second'',
                 Description = [], Responses = Map.empty, Parameters = []\<rparr>"
      and pre = "[]" and mid = "[]" and post = "[]" and routes = "[]" and p = "[]" and m = "[]"]
  by (simp add: skipped_path_def convertToOpenAPIPath_a ToLower_GET)

text \<open>C8 as stated fails for a pair of routes on a documentation path: \<open>GET /\<close>
  registered twice leaves the document without any operation for that path and method.\<close>

theorem last_write_wins_counterexample:
  "operation_at (getSwaggerJSON_paths
      [\<lparr>Method = ''GET'', Path = ''/'', Tags = [], Summary = ''first'', Description = [],
         Responses = Map.empty, Parameters = []\<rparr>,
       \<lparr>Method = ''GET'', Path = ''/'', Tags = [], Summary = ''second'', Description = [],
         Responses = Map.empty, Parameters = []\<rparr>]) (convertToOpenAPIPath ''/'') (ToLower ''GET'')
   = None"
  by (simp add: getSwaggerJSON_paths_def skipped_path_def operation_at_def
      convertToOpenAPIPath_def HasPrefix_def)

section \<open>Properties of validation error formatting\<close>

text \<open>
  C9. The formatter is a total function into sequences of validation errors. For the
  collection of field failures of the validation engine it returns one record for each
  failure, in order, with the field, the tag and the printed value of the failure; the
  message names the field and, for the tags \<open>required\<close>, \<open>min\<close>, \<open>max\<close>, \<open>email\<close>,
  \<open>url\<close>, \<open>len\<close>, \<open>gte\<close> and \<open>lte\<close>, follows the template of the tag (with the
  constraint parameter where the template has one); for every other tag it is the
  fallback message with the field and the tag. For nil and for any other error the
  result is empty.
\<close>

theorem FormatValidationErrors_messages:
  "FormatValidationErrors sprint NilError = []
   \<and> FormatValidationErrors sprint (OtherError s) = []
   \<and> FormatValidationErrors sprint (ValidatorErrors fes) = map (format_field_error sprint) fes
   \<and> Field (format_field_error sprint fe) = fe_Field fe
   \<and> Tag (format_field_error sprint fe) = fe_Tag fe
   \<and> Value (format_field_error sprint fe) = sprint (fe_Value fe)
   \<and> Message (format_field_error sprint fe) =
       ''El campo '' @ [CHR 0x27] @ fe_Field fe @ [CHR 0x27] @
       (if fe_Tag fe = ''required'' then '' es requerido''
        else if fe_Tag fe = ''min''
          then '' debe tener un valor m'' @ [CHR 0xC3, CHR 0xAD] @ ''nimo de '' @ fe_Param fe
        else if fe_Tag fe = ''max''
          then '' debe tener un valor m'' @ [CHR 0xC3, CHR 0xA1] @ ''ximo de '' @ fe_Param fe
        else if fe_Tag fe = ''email'' then '' debe ser un email v'' @ [CHR 0xC3, CHR 0xA1] @ ''lido''
        else if fe_Tag fe = ''url'' then '' debe ser una URL v'' @ [CHR 0xC3, CHR 0xA1] @ ''lida''
        else if fe_Tag fe = ''len''
          then '' debe tener exactamente '' @ fe_Param fe @ '' caracteres''
        else if fe_Tag fe = ''gte'' then '' debe ser mayor o igual a '' @ fe_Param fe
        else if fe_Tag fe = ''lte'' then '' debe ser menor o igual a '' @ fe_Param fe
        else '' no cumple con la validaci'' @ [CHR 0xC3, CHR 0xB3] @ ''n ''
             @ [CHR 0x27] @ fe_Tag fe @ [CHR 0x27])"
  by (simp add: FormatValidationErrors_def format_loop_append format_field_error_def
      validation_message_def)

text \<open>The scenario of the specification (\<open>required\<close> on \<open>email\<close>), a tag with a
  parameter and an unrecognized tag.\<close>

theorem FormatValidationErrors_messages_witness:
  "map Message (FormatValidationErrors (\<lambda>v::string. v)
      (ValidatorErrors
        [\<lparr>fe_Field = ''email'', fe_Tag = ''required'', fe_Value = [], fe_Param = []\<rparr>,
         \<lparr>fe_Field = ''age'', fe_Tag = ''gte'', fe_Value = ''3'', fe_Param = ''18''\<rparr>,
         \<lparr>fe_Field = ''code'', fe_Tag = ''alpha'', fe_Value = ''x1'', fe_Param = []\<rparr>]))
   = [''El campo '' @ [CHR 0x27] @ ''email'' @ [CHR 0x27] @ '' es requerido'',
      ''El campo '' @ [CHR 0x27] @ ''age'' @ [CHR 0x27] @ '' debe ser mayor o igual a 18'',
      ''El campo '' @ [CHR 0x27] @ ''code'' @ [CHR 0x27] @ '' no cumple con la validaci''
        @ [CHR 0xC3, CHR 0xB3] @ ''n '' @ [CHR 0x27] @ ''alpha'' @ [CHR 0x27]]
   \<and> FormatValidationErrors (\<lambda>v::string. v) (OtherError ''EOF'') = []"
  using FormatValidationErrors_messages [where sprint = "\<lambda>v::string. v" and s = "''EOF''"
      and fes = "[\<lparr>fe_Field = ''email'', fe_Tag = ''required'', fe_Value = [], fe_Param = []\<rparr>,
                  \<lparr>fe_Field = ''age'', fe_Tag = ''gte'', fe_Value = ''3'', fe_Param = ''18''\<rparr>,
                  \<lparr>fe_Field = ''code'', fe_Tag = ''alpha'', fe_Value = ''x1'', fe_Param = []\<rparr>]"
      and fe = "\<lparr>fe_Field = ''email'', fe_Tag = ''required'', fe_Value = [], fe_Param = []\<rparr>"]
    FormatValidationErrors_messages [where sprint = "\<lambda>v::string. v" and s = "''EOF''"
      and fes = "[]"
      and fe = "\<lparr>fe_Field = ''age'', fe_Tag = ''gte'', fe_Value = ''3'', fe_Param = ''18''\<rparr>"]
    FormatValidationErrors_messages [where sprint = "\<lambda>v::string. v" and s = "''EOF''"
      and fes = "[]"
      and fe = "\<lparr>fe_Field = ''code'', fe_Tag = ''alpha'', fe_Value = ''x1'', fe_Param = []\<rparr>"]
  by simp

section \<open>Properties of the dependency container\<close>





text \<open>
  C2, against the code. \<open>Resolve\<close> still holds the read lock of the container when it
  calls the provider, and the closure stored by \<open>RegisterSingleton\<close> asks for the write
  lock of the same mutex. On the first resolution of a registered singleton (no instance
  stored yet), on a container whose write lock is free, the call therefore waits for a
  lock that its own read lock keeps taken: it does not return.
\<close>

theorem Resolve_singleton_blocks:
  assumes "providers dc T = Some (Memoizing T provider)"
    and "instances dc T = None"
    and "\<not> writer (mutex dc)"
  shows "Resolve assignable dc c (Dyn (PtrTo T) a) = Blocks"
  using assms
  by (simp add: Resolve_def RLock_def RUnlock_def Lock_def singleton_provider_def Let_def)

text \<open>A singleton registered for \<open>Settings\<close> on a new container and resolved into a
  variable of type \<open>Settings\<close>.\<close>

theorem Resolve_singleton_blocks_witness:
  "(\<exists>dc. RegisterSingleton (NewDependencyContainer :: unit DependencyContainer)
            (\<lambda>c n. (Dyn (Named ''Settings'') (Some 7), None))
            (Dyn (PtrTo (Named ''Settings'')) None) = Returns () dc
        \<and> Resolve (=) dc () (Dyn (PtrTo (Named ''Settings'')) (Some 0)) = Blocks)"
proof -
  let ?new = "NewDependencyContainer :: unit DependencyContainer"
  let ?p = "\<lambda>(c::unit) (n::nat). (Dyn (Named ''Settings'') (Some 7), None :: err option)"
  let ?reg = "?new\<lparr>providers := [type_key (PtrTo (Named ''Settings''))
                                    \<mapsto> Memoizing (type_key (PtrTo (Named ''Settings''))) ?p]\<rparr>"
  have r: "RegisterSingleton ?new ?p (Dyn (PtrTo (Named ''Settings'')) None) = Returns () ?reg"
    by (rule RegisterSingleton_fresh)
  have "Resolve (=) ?reg () (Dyn (PtrTo (Named ''Settings'')) (Some 0)) = Blocks"
    using Resolve_singleton_blocks [where dc = ?reg and T = "Named ''Settings''" and provider = ?p
        and assignable = "(=)" and c = "()" and a = "Some 0"]
    by (simp add: type_key_def NewDependencyContainer_def)
  then show ?thesis using r by blast
qed

text \<open>
  C1, against the code. The provider map is private to the container, and the only call
  of a stored provider is the one in \<open>Resolve\<close>, made while \<open>Resolve\<close> holds the read
  lock it took on entry; that lock is released only after the closure has returned. So
  goroutines that call the closure stored by \<open>RegisterSingleton\<close> at the same time,
  before any instance exists for the key, do so with \<open>k > 0\<close> read locks held, one for
  each caller. Then, under every schedule and for every provider, no call of the closure
  ever returns, the provider is never invoked, and no instance is ever stored: the
  provider is not invoked exactly once, and no caller observes an instance.
\<close>

theorem closure_under_read_lock:
  assumes "instances dc T = None" and "mutex dc = \<lparr>readers = k, writer = False\<rparr>" and "0 < k"
  shows "(\<forall>t < length cs. \<not> is_Done (goroutines (run T p cs schedule (concurrent_calls dc cs)) ! t))
       \<and> invocations (shared (run T p cs schedule (concurrent_calls dc cs))) = invocations dc
       \<and> instances (shared (run T p cs schedule (concurrent_calls dc cs))) T = None"
proof -
  let ?s = "run T p cs schedule (concurrent_calls dc cs)"
  have "stuck_inv k T (invocations dc) (concurrent_calls dc cs)"
    using assms(1,2) by (simp add: stuck_inv_def concurrent_calls_def sum_list_replicate)
  then have i: "stuck_inv k T (invocations dc) ?s"
    using assms(3) by (rule stuck_inv_run)
  have n: "length (goroutines ?s) = length cs"
    by (simp add: run_length concurrent_calls_def)
  have "\<forall>t < length cs. \<not> is_Done (goroutines ?s ! t)"
  proof (intro allI impI)
    fix t assume "t < length cs"
    then have "before_write (goroutines ?s ! t)" using i n by (simp add: stuck_inv_def)
    then show "\<not> is_Done (goroutines ?s ! t)" by (cases "goroutines ?s ! t") simp_all
  qed
  then show ?thesis using i by (simp add: stuck_inv_def)
qed

text \<open>Two goroutines, each inside \<open>Resolve\<close> with its read lock taken, on a container
  with a singleton registered for \<open>Settings\<close>: after any number of operations both are
  still waiting for the write lock.\<close>

theorem closure_under_read_lock_witness:
  "goroutines (run (Named ''Settings'')
       (\<lambda>(c::unit) n. (Dyn (Named ''Settings'') (Some n), None)) [(), ()]
       [0, 1, 0, 1, 0, 1, 0, 1, 1, 0, 0, 1]
       (concurrent_calls
          (NewDependencyContainer\<lparr>mutex := \<lparr>readers = 2, writer = False\<rparr>\<rparr>) [(), ()]))
     = [WantWrite, WantWrite]
   \<and> invocations (shared (run (Named ''Settings'')
       (\<lambda>(c::unit) n. (Dyn (Named ''Settings'') (Some n), None)) [(), ()]
       [0, 1, 0, 1, 0, 1, 0, 1, 1, 0, 0, 1]
       (concurrent_calls
          (NewDependencyContainer\<lparr>mutex := \<lparr>readers = 2, writer = False\<rparr>\<rparr>) [(), ()]))) = 0
   \<and> instances (shared (run (Named ''Settings'')
       (\<lambda>(c::unit) n. (Dyn (Named ''Settings'') (Some n), None)) [(), ()]
       [0, 1, 0, 1, 0, 1, 0, 1, 1, 0, 0, 1]
       (concurrent_calls
          (NewDependencyContainer\<lparr>mutex := \<lparr>readers = 2, writer = False\<rparr>\<rparr>) [(), ()])))
       (Named ''Settings'') = None"
proof -
  let ?p = "\<lambda>(c::unit) (n::nat). (Dyn (Named ''Settings'') (Some n), None :: err option)"
  let ?held = "(NewDependencyContainer :: unit DependencyContainer)
                 \<lparr>mutex := \<lparr>readers = 2, writer = False\<rparr>\<rparr>"
  let ?s = "run (Named ''Settings'') ?p [(), ()] [0, 1, 0, 1, 0, 1, 0, 1, 1, 0, 0, 1]
              (concurrent_calls ?held [(), ()])"
  have h1: "instances ?held (Named ''Settings'') = None"
    by (simp add: NewDependencyContainer_def)
  have h2: "mutex ?held = \<lparr>readers = 2, writer = False\<rparr>"
    by simp
  have h3: "(0::nat) < 2"
    by simp
  have h4: "invocations ?held = 0"
    by (simp add: NewDependencyContainer_def)
  have ev: "goroutines ?s = [WantWrite, WantWrite]"
    by code_simp
  have "invocations (shared ?s) = invocations ?held
        \<and> instances (shared ?s) (Named ''Settings'') = None"
    using closure_under_read_lock [where dc = ?held and T = "Named ''Settings''" and k = 2
        and p = ?p and cs = "[(), ()]" and schedule = "[0, 1, 0, 1, 0, 1, 0, 1, 1, 0, 0, 1]"]
      h1 h2 h3
    by blast
  then have "invocations (shared ?s) = 0 \<and> instances (shared ?s) (Named ''Settings'') = None"
    unfolding h4 .
  then show ?thesis using ev by blast
qed

text \<open>
  The closure on its own. Were the closure entered with no lock held, on a container
  that holds no instance for the key, its double-checked locking would give what is
  expected of a singleton: if the first invocation of the provider succeeds, whichever
  goroutine makes it, then in every state of every execution the provider has been
  invoked at most once, every goroutine that has returned has returned without error the
  instance stored for the key, the provider having been invoked exactly once, and every
  execution can be continued until all goroutines have returned. The program never
  enters the closure in such a state.
\<close>

lemma unlocked_closure_once:
  assumes "instances dc T = None" and "mutex dc = \<lparr>readers = 0, writer = False\<rparr>"
    and "\<forall>c \<in> set cs. snd (p c (invocations dc)) = None"
  shows "invocations (shared (run T p cs schedule (concurrent_calls dc cs))) \<le> invocations dc + 1
    \<and> (\<forall>t < length cs. \<forall>r.
          goroutines (run T p cs schedule (concurrent_calls dc cs)) ! t = Done r \<longrightarrow>
            invocations (shared (run T p cs schedule (concurrent_calls dc cs))) = invocations dc + 1
            \<and> snd r = None
            \<and> instances (shared (run T p cs schedule (concurrent_calls dc cs))) T = Some (fst r))
    \<and> (\<exists>more. \<forall>t < length cs.
          is_Done (goroutines (run T p cs more (run T p cs schedule (concurrent_calls dc cs))) ! t))"
proof -
  let ?s = "run T p cs schedule (concurrent_calls dc cs)"
  have n: "length (goroutines ?s) = length cs"
    by (simp add: run_length concurrent_calls_def)
  have li: "lock_inv ?s" and mi: "memo_inv T (invocations dc) ?s"
    using invs_run [where p = p and cs = cs and ?n0.0 = "invocations dc" and T = T
        and s = "concurrent_calls dc cs" and schedule = schedule]
      assms(3) invs_init [OF assms(1,2), of cs] by simp_all
  have ok: "\<forall>t < length cs. pc_ok T (invocations dc) (shared ?s) (goroutines ?s ! t)"
    using mi n by (simp add: memo_inv_def)
  have a: "invocations (shared ?s) \<le> invocations dc + 1"
  proof (cases "instances (shared ?s) T")
    case None
    then consider "invocations (shared ?s) = invocations dc"
      | u where "u < length cs" "is_Called (goroutines ?s ! u)"
      using mi n by (auto simp add: memo_inv_def)
    then show ?thesis
    proof cases
      case 1
      then show ?thesis by simp
    next
      case 2
      then show ?thesis using ok by (cases "goroutines ?s ! u") auto
    qed
  next
    case (Some i)
    then show ?thesis using mi by (simp add: memo_inv_def)
  qed
  have b: "\<forall>t < length cs. \<forall>r. goroutines ?s ! t = Done r \<longrightarrow>
            invocations (shared ?s) = invocations dc + 1 \<and> snd r = None
            \<and> instances (shared ?s) T = Some (fst r)"
  proof (intro allI impI)
    fix t r
    assume "t < length cs" "goroutines ?s ! t = Done r"
    then have "snd r = None \<and> instances (shared ?s) T = Some (fst r)" using ok by auto
    then show "invocations (shared ?s) = invocations dc + 1 \<and> snd r = None
            \<and> instances (shared ?s) T = Some (fst r)"
      using mi by (simp add: memo_inv_def)
  qed
  have c: "\<exists>more. \<forall>t < length cs. is_Done (goroutines (run T p cs more ?s) ! t)"
    using completion [OF li, of cs T p] n by simp
  show ?thesis using a b c by blast
qed

text \<open>Two goroutines whose operations alternate; the provider would return a new
  instance at every invocation.\<close>

lemma unlocked_closure_once_example:
  "invocations (shared (run (Named ''UserService'')
       (\<lambda>(c::unit) n. (Dyn (PtrTo (Named ''UserService'')) (Some n), None)) [(), ()]
       [0, 1, 0, 1, 0, 1, 1, 0, 0, 1, 1, 0, 0, 1, 1, 0, 0, 1, 0, 0]
       (concurrent_calls NewDependencyContainer [(), ()]))) = 1
   \<and> goroutines (run (Named ''UserService'')
       (\<lambda>(c::unit) n. (Dyn (PtrTo (Named ''UserService'')) (Some n), None)) [(), ()]
       [0, 1, 0, 1, 0, 1, 1, 0, 0, 1, 1, 0, 0, 1, 1, 0, 0, 1, 0, 0]
       (concurrent_calls NewDependencyContainer [(), ()]))
     = [Done (Dyn (PtrTo (Named ''UserService'')) (Some 0), None),
        Done (Dyn (PtrTo (Named ''UserService'')) (Some 0), None)]"
proof -
  let ?p = "\<lambda>(c::unit) (n::nat). (Dyn (PtrTo (Named ''UserService'')) (Some n), None :: err option)"
  let ?new = "NewDependencyContainer :: unit DependencyContainer"
  let ?s = "run (Named ''UserService'') ?p [(), ()]
       [0, 1, 0, 1, 0, 1, 1, 0, 0, 1, 1, 0, 0, 1, 1, 0, 0, 1, 0, 0]
       (concurrent_calls ?new [(), ()])"
  have h1: "instances ?new (Named ''UserService'') = None"
    by (simp add: NewDependencyContainer_def)
  have h2: "mutex ?new = \<lparr>readers = 0, writer = False\<rparr>"
    by (simp add: NewDependencyContainer_def)
  have h3: "\<forall>c \<in> set [(), ()]. snd (?p c (invocations ?new)) = None"
    by simp
  have h4: "invocations ?new = 0"
    by (simp add: NewDependencyContainer_def)
  have ev: "goroutines ?s
     = [Done (Dyn (PtrTo (Named ''UserService'')) (Some 0), None),
        Done (Dyn (PtrTo (Named ''UserService'')) (Some 0), None)]"
    by code_simp
  have g: "goroutines ?s ! 0 = Done (Dyn (PtrTo (Named ''UserService'')) (Some 0), None)"
    unfolding ev by simp
  have "\<forall>t < length [(), ()]. \<forall>r. goroutines ?s ! t = Done r \<longrightarrow>
      invocations (shared ?s) = invocations ?new + 1 \<and> snd r = None
      \<and> instances (shared ?s) (Named ''UserService'') = Some (fst r)"
    using unlocked_closure_once [where dc = ?new and T = "Named ''UserService''" and p = ?p
        and cs = "[(), ()]"
        and schedule = "[0, 1, 0, 1, 0, 1, 1, 0, 0, 1, 1, 0, 0, 1, 1, 0, 0, 1, 0, 0]"] h1 h2 h3
    by blast
  then have "0 < length [(), ()] \<longrightarrow>
      goroutines ?s ! 0 = Done (Dyn (PtrTo (Named ''UserService'')) (Some 0), None) \<longrightarrow>
      invocations (shared ?s) = invocations ?new + 1"
    by blast
  then have "invocations (shared ?s) = invocations ?new + 1"
    using g by (simp del: run.simps)
  then have "invocations (shared ?s) = 1"
    using h4 by (simp del: run.simps)
  then show ?thesis using ev by blast
qed

end
